theory Spec2Isabelle
  imports Main
begin

section \<open>Python values and exceptions\<close>

text \<open>
  The exceptions the two modules raise, as values. The spec's taxonomy names them by role:
  its SchemaTypeError is the \<open>TypeError\<close> of \<open>Table.__init__\<close>, its ColumnError the
  \<open>ValueError\<close> of \<open>check_vector_column\<close>/\<open>check_text_column\<close>, its lookup errors are
  \<open>KeyError\<close>s. \<open>EngineError\<close> stands for whatever the SQL engine raises; it propagates
  unchanged.
\<close>

datatype py_error =
    TypeError string
  | ValueError string
  | KeyError string
  | AttributeError string
  | IndexError string
  | ValidationError string
  | OverflowError string
  | EngineError string

text \<open>
  The Python values that flow through records, payloads and rows. A vector is kept
  abstract (\<open>'a\<close>): nothing in the two modules looks inside one.
\<close>

datatype 'a pyval = PNone | PBool bool | PInt int | PStr string | PVec 'a

section \<open>utils.py: column classification\<close>

text \<open>
  A column's \<open>type\<close> attribute holds a Python object. SQLAlchemy stores an \<^emph>\<open>instance\<close> of
  a type class there (\<open>Column("v", VectorType(3))\<close>; a class given to \<open>Column\<close> is
  instantiated); the class object itself is a different Python object.
  \<open>Text\<close> is a subclass of \<open>String\<close>; \<open>AutoString\<close> (sqlmodel) is a type decorator and
  not one. \<open>Subclass n b\<close> is any further class, named \<open>n\<close>, that derives from the class
  \<open>b\<close>: \<open>VARCHAR\<close>, \<open>CHAR\<close>, \<open>Unicode\<close> and \<open>Enum\<close> derive from \<open>String\<close>, \<open>UnicodeText\<close>
  from \<open>Text\<close>, \<open>NVARCHAR\<close> from \<open>Unicode\<close>. \<open>OtherType n\<close> is a class that derives from none
  of the classes named here.
\<close>

datatype sa_class = VectorType | String | Text | AutoString | Integer | OtherType string
  | Subclass string sa_class

fun issubclass :: "sa_class \<Rightarrow> sa_class \<Rightarrow> bool" where
  "issubclass (Subclass n b) k = (k = Subclass n b \<or> issubclass b k)"
| "issubclass Text k = (k = Text \<or> k = String)"
| "issubclass c k = (c = k)"

datatype type_obj = Instance sa_class | ClassObject sa_class

fun isinstance :: "type_obj \<Rightarrow> sa_class \<Rightarrow> bool" where
  "isinstance (Instance c) k = issubclass c k"
| "isinstance (ClassObject c) k = False"

text \<open>
  \<open>x != C\<close> for a class object \<open>C\<close>: the type classes define no \<open>__eq__\<close>, so Python
  compares identities, and only the class object \<open>C\<close> itself is equal to \<open>C\<close>.
\<close>

definition ne_class :: "type_obj \<Rightarrow> sa_class \<Rightarrow> bool" where
  "ne_class x k = (x \<noteq> ClassObject k)"

record column =
  col_table :: string
  col_name :: string
  col_type :: type_obj

text \<open>\<open>str(column)\<close> of a column bound to a table.\<close>

definition column_str :: "column \<Rightarrow> string" where
  "column_str c = col_table c @ ''.'' @ col_name c"

text \<open>
  A column collection: iteration yields the columns in declaration order,
  \<open>name in columns\<close> and \<open>columns[name]\<close> go by column name.
\<close>

definition col_names :: "column list \<Rightarrow> string list" where
  "col_names cols = map col_name cols"

definition col_lookup :: "column list \<Rightarrow> string \<Rightarrow> column option" where
  "col_lookup cols n = find (\<lambda>c. col_name c = n) cols"

definition filter_vector_columns :: "column list \<Rightarrow> column list" where
  "filter_vector_columns columns = filter (\<lambda>c. isinstance (col_type c) VectorType) columns"

definition check_vector_column :: "column list \<Rightarrow> string \<Rightarrow> py_error + column" where
  "check_vector_column columns column_name =
     (case col_lookup columns column_name of
        None \<Rightarrow> Inl (ValueError (''Non-exists vector column: '' @ column_name))
      | Some vector_column \<Rightarrow>
          if ne_class (col_type vector_column) VectorType
          then Inl (ValueError (''Invalid vector column: '' @ column_str vector_column))
          else Inr vector_column)"

definition filter_text_columns :: "column list \<Rightarrow> column list" where
  "filter_text_columns columns =
     filter (\<lambda>c. isinstance (col_type c) AutoString \<or> isinstance (col_type c) String) columns"

definition check_text_column :: "column list \<Rightarrow> string \<Rightarrow> py_error + column" where
  "check_text_column columns column_name =
     (case col_lookup columns column_name of
        None \<Rightarrow> Inl (ValueError (''Non-exists text column: '' @ column_name))
      | Some text_column \<Rightarrow>
          if \<not> isinstance (col_type text_column) String \<and>
             \<not> isinstance (col_type text_column) AutoString
          then Inl (ValueError (''Invalid text column: '' @ column_str text_column))
          else Inr text_column)"

section \<open>utils.py: row identity\<close>

text \<open>
  A result row: \<open>row._mapping\<close> maps the names of the row's columns to its values, in
  column order. The resolver returns either a value of the row or a tuple of them.
\<close>

type_synonym 'a row = "(string \<times> 'a pyval) list"

datatype 'a row_id = Single "'a pyval" | Composite "'a pyval list"

definition quoted :: "string \<Rightarrow> string" where
  "quoted s = [CHR 0x27] @ s @ [CHR 0x27]"

text \<open>
  \<open>row._mapping[name]\<close>: the value, or, for a name the row does not have, the
  \<open>NoSuchColumnError\<close> of the result. That exception is a \<open>KeyError\<close>; its \<open>args[0]\<close> is
  not the name but a sentence that quotes it.
\<close>

definition no_such_column :: "string \<Rightarrow> string" where
  "no_such_column name = ''Could not locate column in row for column '' @ quoted name"

definition getitem :: "'a row \<Rightarrow> string \<Rightarrow> string + 'a pyval" where
  "getitem row name =
     (case map_of row name of None \<Rightarrow> Inl (no_such_column name) | Some v \<Rightarrow> Inr v)"

text \<open>
  \<open>tuple(row._mapping[name] for name in names)\<close>: the generator stops at the first
  missing name.
\<close>

fun getitems :: "'a row \<Rightarrow> string list \<Rightarrow> string + 'a pyval list" where
  "getitems d [] = Inr []"
| "getitems d (n # ns) =
     (case getitem d n of
        Inl k \<Rightarrow> Inl k
      | Inr v \<Rightarrow> (case getitems d ns of Inl k \<Rightarrow> Inl k | Inr vs \<Rightarrow> Inr (v # vs)))"

text \<open>
  \<open>repr\<close> of a string, which is how the f-string prints the elements of
  \<open>list(row._mapping.keys())\<close>. The string is put in single quotes, or in double quotes
  when it has a single quote and no double quote. The quote character and the backslash
  are escaped, tab, newline and carriage return are written \<open>\t\<close>, \<open>\n\<close>, \<open>\r\<close>, and any
  other character that is not printable is written \<open>\xhh\<close>. A character of the model is a
  code point below 256; of these the controls below 0x20, 0x7f to 0xa0 and 0xad are not
  printable.
\<close>

definition hex_digit :: "nat \<Rightarrow> char" where
  "hex_digit n = ''0123456789abcdef'' ! n"

definition printable :: "char \<Rightarrow> bool" where
  "printable c =
     (let n = (of_char c :: nat) in (32 \<le> n \<and> n < 127) \<or> (161 \<le> n \<and> n \<noteq> 173))"

definition repr_char :: "char \<Rightarrow> char \<Rightarrow> string" where
  "repr_char q c =
     (if c = q \<or> c = CHR 0x5C then [CHR 0x5C, c]
      else if c = CHR 0x09 then [CHR 0x5C, CHR ''t'']
      else if c = CHR 0x0A then [CHR 0x5C, CHR ''n'']
      else if c = CHR 0x0D then [CHR 0x5C, CHR ''r'']
      else if printable c then [c]
      else [CHR 0x5C, CHR ''x'', hex_digit (of_char c div 16), hex_digit (of_char c mod 16)])"

definition repr_str :: "string \<Rightarrow> string" where
  "repr_str s =
     (let q = (if CHR 0x27 \<in> set s \<and> CHR 0x22 \<notin> set s then CHR 0x22 else CHR 0x27)
      in [q] @ concat (map (repr_char q) s) @ [q])"

text \<open>\<open>str\<close> of a list of strings.\<close>

fun join_comma :: "string list \<Rightarrow> string" where
  "join_comma [] = []"
| "join_comma [x] = x"
| "join_comma (x # y # ys) = x @ '', '' @ join_comma (y # ys)"

definition str_list :: "string list \<Rightarrow> string" where
  "str_list ks = ''['' @ join_comma (map repr_str ks) @ '']''"

text \<open>The message of the \<open>KeyError\<close> the resolver raises, from the \<open>args[0]\<close> it caught.\<close>

definition pk_not_found :: "string \<Rightarrow> 'a row \<Rightarrow> py_error" where
  "pk_not_found k row =
     KeyError (''Primary key column '' @ quoted k @ '' not found in Row. Available: ''
               @ str_list (map fst row))"

text \<open>
  \<open>row.__hash__()\<close> is the hash of the tuple of the row's values. Python hashes the
  values in order; a vector (a list, an array) is not hashable, and the first one met
  raises the \<open>TypeError\<close> that names its type. \<open>tn\<close> gives the type name of a vector, \<open>h\<close>
  the hash of a tuple of hashable values.
\<close>

fun unhashable :: "'a pyval \<Rightarrow> bool" where
  "unhashable (PVec x) = True"
| "unhashable v = False"

definition Row_hash ::
  "('a \<Rightarrow> string) \<Rightarrow> ('a pyval list \<Rightarrow> int) \<Rightarrow> 'a row \<Rightarrow> py_error + int" where
  "Row_hash tn h row =
     (case find unhashable (map snd row) of
        Some (PVec x) \<Rightarrow> Inl (TypeError (''unhashable type: '' @ quoted (tn x)))
      | _ \<Rightarrow> Inr (h (map snd row)))"

definition get_row_id_from_row ::
  "('a \<Rightarrow> string) \<Rightarrow> ('a pyval list \<Rightarrow> int) \<Rightarrow> 'a row \<Rightarrow> string list
     \<Rightarrow> py_error + 'a row_id" where
  "get_row_id_from_row tn h row pk_columns =
     (if pk_columns = [] then
        (case getitem row ''_tidb_rowid'' of
           Inr v \<Rightarrow> Inr (Single v)
         | Inl k \<Rightarrow>
             (case Row_hash tn h row of
                Inl e \<Rightarrow> Inl e
              | Inr n \<Rightarrow> Inr (Single (PInt n))))
      else
        (let pk_column_names = pk_columns in
         if length pk_column_names = 1 then
           (case getitem row (hd pk_column_names) of
              Inr v \<Rightarrow> Inr (Single v)
            | Inl k \<Rightarrow> Inl (pk_not_found k row))
         else
           (case getitems row pk_column_names of
              Inr vs \<Rightarrow> Inr (Composite vs)
            | Inl k \<Rightarrow> Inl (pk_not_found k row))))"

section \<open>utils.py: the connection string\<close>



subsection \<open>Regular expressions, as far as the host pattern needs them\<close>












subsection \<open>\<open>TiDBDsn\<close> and \<open>build_tidb_dsn\<close>\<close>
















section \<open>table.py: schema, fields and indexes\<close>

text \<open>Python dictionaries keep insertion order; \<open>d[k] = v\<close> replaces in place or appends.\<close>

fun dict_set :: "('k \<times> 'v) list \<Rightarrow> 'k \<Rightarrow> 'v \<Rightarrow> ('k \<times> 'v) list" where
  "dict_set [] k v = [(k, v)]"
| "dict_set ((k', v') # d) k v = (if k' = k then (k, v) # d else (k', v') # dict_set d k v)"

definition dict_keys :: "('k \<times> 'v) list \<Rightarrow> 'k list" where
  "dict_keys d = map fst d"

text \<open>
  \<open>str.lower()\<close>, on strings of code points below 256: the ASCII capitals, and the
  capitals from 0xc0 to 0xde (the multiplication sign 0xd7 apart), whose small letters
  lie 32 further.
\<close>

definition lower_char :: "char \<Rightarrow> char" where
  "lower_char c =
     (case map_of (zip ''ABCDEFGHIJKLMNOPQRSTUVWXYZ'' ''abcdefghijklmnopqrstuvwxyz'') c of
        Some l \<Rightarrow> l
      | None \<Rightarrow>
          (let n = (of_char c :: nat)
           in if 192 \<le> n \<and> n \<le> 222 \<and> n \<noteq> 215 then char_of (n + 32) else c))"

definition lower :: "string \<Rightarrow> string" where
  "lower s = map lower_char s"

text \<open>
  The embedding function of a field is an external object with a single and a batch
  method. Both are taken as functions of their argument: a call that raises ends the
  operation with that exception, which is not part of this model.
\<close>

record 'a embed_fn =
  get_source_embedding :: "'a pyval \<Rightarrow> 'a pyval"
  get_source_embeddings :: "'a pyval list \<Rightarrow> 'a pyval list"

text \<open>
  A field's \<open>_attributes_set\<close>, read with \<open>.get(key, default)\<close>: \<open>None\<close> is a key that is
  not set.
\<close>

record 'a field_info =
  attr_field_type :: "string option"
  attr_embed_fn :: "'a embed_fn option"
  attr_source_field :: "string option"
  attr_skip_index :: "bool option"
  attr_distance_metric :: "string option"
  attr_algorithm :: "string option"
  attr_fts_parser :: "string option"

text \<open>The reads of \<open>_attributes_set\<close> that come with a default.\<close>

definition get_skip_index :: "'a field_info \<Rightarrow> bool" where
  "get_skip_index field = (case attr_skip_index field of None \<Rightarrow> False | Some b \<Rightarrow> b)"

definition get_distance_metric :: "'a field_info \<Rightarrow> string" where
  "get_distance_metric field =
     (case attr_distance_metric field of None \<Rightarrow> ''COSINE'' | Some m \<Rightarrow> m)"

definition get_algorithm :: "'a field_info \<Rightarrow> string" where
  "get_algorithm field = (case attr_algorithm field of None \<Rightarrow> ''HNSW'' | Some a \<Rightarrow> a)"

definition get_fts_parser :: "'a field_info \<Rightarrow> string" where
  "get_fts_parser field =
     (case attr_fts_parser field of None \<Rightarrow> ''MULTILINGUAL'' | Some p \<Rightarrow> p)"

record 'a embed_config =
  cfg_embed_fn :: "'a embed_fn option"
  cfg_vector_field :: "'a field_info"
  cfg_vector_field_name :: string
  cfg_source_field_name :: string

type_synonym 'a fields = "(string \<times> 'a field_info) list"
type_synonym 'a configs = "(string \<times> 'a embed_config) list"

text \<open>
  An index of the table: its name, its expressions (a text clause or a column), the names
  of its columns, and the dialect keywords \<open>get_index_type\<close> and the DDL read.
\<close>

datatype index_expr = TextClause string | ColumnExpr string

record sa_index =
  idx_name :: string
  idx_expressions :: "index_expr list"
  idx_columns :: "string list"
  mysql_prefix :: "string option"
  mysql_using :: "string option"
  mysql_with_parser :: "string option"

record sa_table =
  tbl_name :: string
  tbl_columns :: "column list"
  tbl_primary_key :: "string list"
  tbl_indexes :: "sa_index list"

text \<open>
  \<open>index.dialect_kwargs.get("mysql_prefix", "").lower()\<close>. The MySQL dialect registers
  \<open>prefix\<close> among the keywords of an index, with the default \<open>None\<close>; the lookup
  therefore finds the key on every index, and the default \<open>""\<close> of \<open>get\<close> is never used.
  An index made without \<open>mysql_prefix\<close> answers \<open>None\<close>, and \<open>None.lower()\<close> raises.
\<close>

definition get_index_type :: "sa_index \<Rightarrow> py_error + string" where
  "get_index_type index =
     (case mysql_prefix index of
        None \<Rightarrow>
          Inl (AttributeError
                 (quoted ''NoneType'' @ '' object has no attribute '' @ quoted ''lower''))
      | Some p \<Rightarrow> Inr (lower p))"

text \<open>
  Modelled from the spec: the constructors \<open>VectorIndex\<close> and \<open>FullTextIndex\<close> of
  \<open>pytidb.orm.indexes\<close>, which is not among the sources. The spec's index descriptor has a
  name, a column, a kind (vector or fulltext), and for a vector index the metric and the
  algorithm, for a full-text index the parser; a vector index carries the text of the
  canonical distance expression of its (column, metric), which the synchronizer compares.
  \<open>format_distance_expression\<close>, of the same module, is the parameter \<open>fde\<close>.
\<close>

definition VectorIndex ::
  "(string \<Rightarrow> string \<Rightarrow> string) \<Rightarrow> string \<Rightarrow> string \<Rightarrow> string \<Rightarrow> string \<Rightarrow> sa_index" where
  "VectorIndex fde name column_name distance_metric algorithm =
     \<lparr> idx_name = name,
       idx_expressions = [TextClause (fde column_name distance_metric)],
       idx_columns = [],
       mysql_prefix = Some ''VECTOR'',
       mysql_using = Some algorithm,
       mysql_with_parser = None \<rparr>"

definition FullTextIndex :: "string \<Rightarrow> string \<Rightarrow> string \<Rightarrow> sa_index" where
  "FullTextIndex name column_name fts_parser =
     \<lparr> idx_name = name,
       idx_expressions = [ColumnExpr column_name],
       idx_columns = [column_name],
       mysql_prefix = Some ''FULLTEXT'',
       mysql_using = None,
       mysql_with_parser = Some fts_parser \<rparr>"

definition append_constraint :: "sa_table \<Rightarrow> sa_index \<Rightarrow> sa_table" where
  "append_constraint t ix = t\<lparr>tbl_indexes := tbl_indexes t @ [ix]\<rparr>"

subsection \<open>\<open>_setup_auto_embedding\<close>\<close>

fun setup_auto_embedding :: "'a fields \<Rightarrow> 'a configs \<Rightarrow> 'a configs" where
  "setup_auto_embedding [] configs = configs"
| "setup_auto_embedding ((vector_field_name, field) # rest) configs =
     (case attr_embed_fn field of
        None \<Rightarrow> setup_auto_embedding rest configs
      | Some embed_fn \<Rightarrow>
          (case attr_source_field field of
             None \<Rightarrow> setup_auto_embedding rest configs
           | Some source_field_name \<Rightarrow>
               setup_auto_embedding rest
                 (dict_set configs vector_field_name
                    \<lparr> cfg_embed_fn = Some embed_fn,
                      cfg_vector_field = field,
                      cfg_vector_field_name = vector_field_name,
                      cfg_source_field_name = source_field_name \<rparr>)))"

subsection \<open>\<open>_auto_create_vector_index\<close>\<close>

text \<open>\<open>index.expressions[0].text\<close>.\<close>

definition first_expression_text :: "sa_index \<Rightarrow> py_error + string" where
  "first_expression_text index =
     (case idx_expressions index of
        [] \<Rightarrow> Inl (IndexError ''list index out of range'')
      | TextClause t # _ \<Rightarrow> Inr t
      | ColumnExpr c # _ \<Rightarrow> Inl (AttributeError ''text''))"

text \<open>
  The list comprehension over the table's indexes of kind \<open>vector\<close>. The indexes are a
  Python set; they are kept here in the order they were appended.
\<close>

fun indexed_expressions :: "sa_index list \<Rightarrow> py_error + string list" where
  "indexed_expressions [] = Inr []"
| "indexed_expressions (index # rest) =
     (case get_index_type index of
        Inl e \<Rightarrow> Inl e
      | Inr kind \<Rightarrow>
          if kind = ''vector'' then
            (case first_expression_text index of
               Inl e \<Rightarrow> Inl e
             | Inr t \<Rightarrow>
                 (case indexed_expressions rest of Inl e \<Rightarrow> Inl e | Inr ts \<Rightarrow> Inr (t # ts)))
          else indexed_expressions rest)"

definition vec_idx_name :: "string \<Rightarrow> string \<Rightarrow> string" where
  "vec_idx_name column_name distance_metric =
     ''vec_idx_'' @ column_name @ ''_'' @ lower distance_metric"

fun auto_create_vector_index ::
  "(string \<Rightarrow> string \<Rightarrow> string) \<Rightarrow> 'a fields \<Rightarrow> sa_table \<Rightarrow> py_error + sa_table" where
  "auto_create_vector_index fde [] t = Inr t"
| "auto_create_vector_index fde ((field_name, field) # rest) t =
     (let column_name = field_name;
          skip_index = get_skip_index field
      in if skip_index then auto_create_vector_index fde rest t
         else
           (let distance_metric = get_distance_metric field;
                algorithm = get_algorithm field;
                distance_expression = fde column_name distance_metric
            in case indexed_expressions (tbl_indexes t) of
                 Inl e \<Rightarrow> Inl e
               | Inr exprs \<Rightarrow>
                   if distance_expression \<in> set exprs
                   then auto_create_vector_index fde rest t
                   else auto_create_vector_index fde rest
                          (append_constraint t
                             (VectorIndex fde (vec_idx_name column_name distance_metric)
                                column_name distance_metric algorithm))))"

subsection \<open>\<open>_auto_create_fulltext_index\<close>\<close>

text \<open>\<open>index.columns[0].name\<close>.\<close>

definition first_column_name :: "sa_index \<Rightarrow> py_error + string" where
  "first_column_name index =
     (case idx_columns index of
        [] \<Rightarrow> Inl (IndexError ''list index out of range'')
      | c # _ \<Rightarrow> Inr c)"

fun indexed_columns :: "sa_index list \<Rightarrow> py_error + string list" where
  "indexed_columns [] = Inr []"
| "indexed_columns (index # rest) =
     (case get_index_type index of
        Inl e \<Rightarrow> Inl e
      | Inr kind \<Rightarrow>
          if kind = ''fulltext'' then
            (case first_column_name index of
               Inl e \<Rightarrow> Inl e
             | Inr c \<Rightarrow>
                 (case indexed_columns rest of Inl e \<Rightarrow> Inl e | Inr cs \<Rightarrow> Inr (c # cs)))
          else indexed_columns rest)"

definition fts_idx_name :: "string \<Rightarrow> string" where
  "fts_idx_name column_name = ''fts_idx_'' @ column_name"

fun auto_create_fulltext_index :: "'a fields \<Rightarrow> sa_table \<Rightarrow> py_error + sa_table" where
  "auto_create_fulltext_index [] t = Inr t"
| "auto_create_fulltext_index ((text_field_name, field) # rest) t =
     (let skip_index = get_skip_index field
      in if skip_index then auto_create_fulltext_index rest t
         else
           (let column_name = text_field_name
            in case indexed_columns (tbl_indexes t) of
                 Inl e \<Rightarrow> Inl e
               | Inr cols \<Rightarrow>
                   if column_name \<in> set cols
                   then auto_create_fulltext_index rest t
                   else
                     (let fts_parser = get_fts_parser field
                      in auto_create_fulltext_index rest
                           (append_constraint t
                              (FullTextIndex (fts_idx_name column_name) column_name
                                 fts_parser)))))"

section \<open>table.py: construction\<close>

text \<open>
  \<open>type(schema)\<close>: one of the three metaclasses the constructor names, or any other type
  (given by its qualified name).
\<close>

datatype metaclass = TableModelMeta | SQLModelMetaclass | DeclarativeMeta | OtherMeta string

definition metaclass_str :: "metaclass \<Rightarrow> string" where
  "metaclass_str m =
     ''<class '' @ quoted
        (case m of
           TableModelMeta \<Rightarrow> ''pytidb.schema.TableModelMeta''
         | SQLModelMetaclass \<Rightarrow> ''sqlmodel.main.SQLModelMetaclass''
         | DeclarativeMeta \<Rightarrow> ''sqlalchemy.orm.decl_api.DeclarativeMeta''
         | OtherMeta n \<Rightarrow> n) @ ''>''"

text \<open>
  A schema value: its type, its \<open>__table__\<close>, and \<open>__pydantic_fields__\<close> when it has that
  attribute.
\<close>

record 'a schema =
  sch_metaclass :: metaclass
  sch_table :: sa_table
  sch_pydantic_fields :: "'a fields option"

record 'a table =
  t_table_model :: "'a schema"
  t_sa_table :: sa_table
  t_columns :: "column list"
  t_vector_columns :: "column list"
  t_text_columns :: "column list"
  t_auto_embedding_configs :: "'a configs option"
  t_vector_column :: "column option"
  t_text_column :: "column option"

text \<open>What reaches the database: \<open>create_all\<close> for a table, with its \<open>checkfirst\<close> flag.\<close>

datatype db_event = CreateAll string bool

text \<open>The loop over \<open>__pydantic_fields__\<close> that sorts the fields by \<open>field_type\<close>.\<close>

fun classify_fields :: "'a fields \<Rightarrow> 'a fields \<Rightarrow> 'a fields \<Rightarrow> 'a fields \<times> 'a fields" where
  "classify_fields [] vector_fields text_fields = (vector_fields, text_fields)"
| "classify_fields ((field_name, field_info) # rest) vector_fields text_fields =
     (if attr_field_type field_info = Some ''vector''
      then classify_fields rest (dict_set vector_fields field_name field_info) text_fields
      else if attr_field_type field_info = Some ''text''
      then classify_fields rest vector_fields (dict_set text_fields field_name field_info)
      else classify_fields rest vector_fields text_fields)"

text \<open>
  The block under \<open>hasattr(schema, "__pydantic_fields__")\<close>: the configurations and the
  table with its indexes synchronized. Without the attribute the table object gets no
  \<open>_auto_embedding_configs\<close> at all.
\<close>

definition setup_from_fields ::
  "(string \<Rightarrow> string \<Rightarrow> string) \<Rightarrow> 'a schema \<Rightarrow> py_error + ('a configs option \<times> sa_table)" where
  "setup_from_fields fde schema =
     (case sch_pydantic_fields schema of
        None \<Rightarrow> Inr (None, sch_table schema)
      | Some pydantic_fields \<Rightarrow>
          (case classify_fields pydantic_fields [] [] of
             (vector_fields, text_fields) \<Rightarrow>
               (case auto_create_vector_index fde vector_fields (sch_table schema) of
                  Inl e \<Rightarrow> Inl e
                | Inr t1 \<Rightarrow>
                    (case auto_create_fulltext_index text_fields t1 of
                       Inl e \<Rightarrow> Inl e
                     | Inr t2 \<Rightarrow> Inr (Some (setup_auto_embedding vector_fields []), t2)))))"

definition default_vector_column ::
  "column list \<Rightarrow> column list \<Rightarrow> string option \<Rightarrow> py_error + column option" where
  "default_vector_column columns vector_columns vector_column =
     (case vector_column of
        Some n \<Rightarrow> (case check_vector_column columns n of Inl e \<Rightarrow> Inl e | Inr c \<Rightarrow> Inr (Some c))
      | None \<Rightarrow>
          (if length vector_columns = 1 then Inr (Some (hd vector_columns)) else Inr None))"

definition default_text_column ::
  "column list \<Rightarrow> column list \<Rightarrow> string option \<Rightarrow> py_error + column option" where
  "default_text_column columns text_columns text_column =
     (case text_column of
        Some n \<Rightarrow> (case check_text_column columns n of Inl e \<Rightarrow> Inl e | Inr c \<Rightarrow> Inr (Some c))
      | None \<Rightarrow>
          (if length text_columns = 1 then Inr (Some (hd text_columns)) else Inr None))"

text \<open>
  \<open>Table.__init__\<close>. \<open>create_all\<close> is the engine: it answers with the message of the error
  it raises, if it raises. The second component is the trace of database interactions,
  extended from \<open>db\<close>.
\<close>

definition Table_init ::
  "(string \<Rightarrow> string \<Rightarrow> string) \<Rightarrow> (sa_table \<Rightarrow> bool \<Rightarrow> string option) \<Rightarrow> 'a schema
     \<Rightarrow> string option \<Rightarrow> string option \<Rightarrow> bool \<Rightarrow> db_event list
     \<Rightarrow> (py_error + 'a table) \<times> db_event list" where
  "Table_init fde create_all schema vector_column text_column exist_ok db =
     (if sch_metaclass schema = TableModelMeta
         \<or> sch_metaclass schema = SQLModelMetaclass
         \<or> sch_metaclass schema = DeclarativeMeta
      then
        (let columns = tbl_columns (sch_table schema);
             vector_columns = filter_vector_columns columns;
             text_columns = filter_text_columns columns
         in case setup_from_fields fde schema of
              Inl e \<Rightarrow> (Inl e, db)
            | Inr (configs, sa_table) \<Rightarrow>
                (let db' = db @ [CreateAll (tbl_name sa_table) exist_ok]
                 in case create_all sa_table exist_ok of
                      Some msg \<Rightarrow> (Inl (EngineError msg), db')
                    | None \<Rightarrow>
                        (case default_vector_column columns vector_columns vector_column of
                           Inl e \<Rightarrow> (Inl e, db')
                         | Inr vc \<Rightarrow>
                             (case default_text_column columns text_columns text_column of
                                Inl e \<Rightarrow> (Inl e, db')
                              | Inr tc \<Rightarrow>
                                  (Inr \<lparr> t_table_model = schema\<lparr>sch_table := sa_table\<rparr>,
                                         t_sa_table = sa_table,
                                         t_columns = columns,
                                         t_vector_columns = vector_columns,
                                         t_text_columns = text_columns,
                                         t_auto_embedding_configs = configs,
                                         t_vector_column = vc,
                                         t_text_column = tc \<rparr>, db')))))
      else (Inl (TypeError (''Invalid schema type: '' @ metaclass_str (sch_metaclass schema))),
            db))"

section \<open>table.py: the embedding pipeline\<close>

text \<open>
  A record object: its attributes. \<open>getattr\<close> of a missing attribute raises; \<open>hasattr\<close>
  asks whether it is there.
\<close>

type_synonym 'a obj = "string \<rightharpoonup> 'a pyval"

definition no_attribute :: "string \<Rightarrow> py_error" where
  "no_attribute n = AttributeError (''object has no attribute '' @ quoted n)"

subsection \<open>\<open>insert\<close>\<close>

fun insert_embed :: "'a configs \<Rightarrow> 'a obj \<Rightarrow> py_error + 'a obj" where
  "insert_embed [] data = Inr data"
| "insert_embed ((field_name, config) # rest) data =
     (case data field_name of
        None \<Rightarrow> Inl (no_attribute field_name)
      | Some v \<Rightarrow>
          if v \<noteq> PNone then insert_embed rest data
          else
            (case data (cfg_source_field_name config) of
               None \<Rightarrow> insert_embed rest data
             | Some embedding_source \<Rightarrow>
                 (case cfg_embed_fn config of
                    None \<Rightarrow> Inl (no_attribute ''get_source_embedding'')
                  | Some fn \<Rightarrow>
                      insert_embed rest
                        (data(field_name \<mapsto> get_source_embedding fn embedding_source)))))"

text \<open>
  \<open>Table.insert\<close>, named \<open>insert_one\<close> here: the record as it is handed to the session,
  and the record returned after the session's flush and refresh (\<open>refresh\<close>, the
  database's part).
\<close>

record 'a insert_result =
  ins_persisted :: "'a obj"
  ins_returned :: "'a obj"

definition insert_one ::
  "('a obj \<Rightarrow> 'a obj) \<Rightarrow> 'a table \<Rightarrow> 'a obj \<Rightarrow> py_error + 'a insert_result" where
  "insert_one refresh tbl data =
     (case t_auto_embedding_configs tbl of
        None \<Rightarrow> Inl (no_attribute ''_auto_embedding_configs'')
      | Some configs \<Rightarrow>
          (case insert_embed configs data of
             Inl e \<Rightarrow> Inl e
           | Inr data' \<Rightarrow> Inr \<lparr> ins_persisted = data', ins_returned = refresh data' \<rparr>))"

subsection \<open>\<open>bulk_insert\<close>\<close>

text \<open>
  The list passed to \<open>bulk_insert\<close> holds references; the same object may occur twice.
  The store maps a reference to the object's attributes. The events record, in order,
  the calls of the embedding functions and the attribute assignments.
\<close>

type_synonym 'a store = "nat \<Rightarrow> 'a obj"

datatype 'a embed_event =
    EmbedOne string "'a pyval"
  | EmbedBatch string "'a pyval list"
  | SetAttr nat string "'a pyval"

text \<open>The inner loop: the items that need the field, and their sources.\<close>

fun collect_items ::
  "string \<Rightarrow> string \<Rightarrow> 'a store \<Rightarrow> nat list \<Rightarrow> py_error + (nat list \<times> 'a pyval list)" where
  "collect_items field_name source st [] = Inr ([], [])"
| "collect_items field_name source st (item # rest) =
     (case st item field_name of
        None \<Rightarrow> Inl (no_attribute field_name)
      | Some v \<Rightarrow>
          if v \<noteq> PNone then collect_items field_name source st rest
          else
            (case st item source of
               None \<Rightarrow> collect_items field_name source st rest
             | Some embedding_source \<Rightarrow>
                 (case collect_items field_name source st rest of
                    Inl e \<Rightarrow> Inl e
                  | Inr (items, sources) \<Rightarrow>
                      Inr (item # items, embedding_source # sources))))"

text \<open>The loop over \<open>zip(items_need_embedding, vector_embeddings)\<close>.\<close>

fun assign_all :: "string \<Rightarrow> (nat \<times> 'a pyval) list \<Rightarrow> 'a store \<Rightarrow> 'a store" where
  "assign_all field_name [] st = st"
| "assign_all field_name ((item, embedding) # rest) st =
     assign_all field_name rest (st(item := (st item)(field_name \<mapsto> embedding)))"

fun bulk_embed ::
  "'a configs \<Rightarrow> nat list \<Rightarrow> 'a store \<Rightarrow> 'a embed_event list
     \<Rightarrow> py_error + ('a store \<times> 'a embed_event list)" where
  "bulk_embed [] data st evs = Inr (st, evs)"
| "bulk_embed ((field_name, config) # rest) data st evs =
     (case cfg_embed_fn config of
        None \<Rightarrow> bulk_embed rest data st evs
      | Some fn \<Rightarrow>
          (case collect_items field_name (cfg_source_field_name config) st data of
             Inl e \<Rightarrow> Inl e
           | Inr (items_need_embedding, sources_to_embedding) \<Rightarrow>
               (let vector_embeddings = get_source_embeddings fn sources_to_embedding;
                    pairs = zip items_need_embedding vector_embeddings
                in bulk_embed rest data (assign_all field_name pairs st)
                     (evs @ EmbedBatch field_name sources_to_embedding
                          # map (\<lambda>(item, embedding). SetAttr item field_name embedding) pairs))))"

record 'a bulk_result =
  bulk_persisted :: "'a store"
  bulk_events :: "'a embed_event list"
  bulk_returned :: "'a store"

definition bulk_insert ::
  "(nat list \<Rightarrow> 'a store \<Rightarrow> 'a store) \<Rightarrow> 'a table \<Rightarrow> nat list \<Rightarrow> 'a store
     \<Rightarrow> py_error + 'a bulk_result" where
  "bulk_insert refresh_all tbl data st =
     (case t_auto_embedding_configs tbl of
        None \<Rightarrow> Inl (no_attribute ''_auto_embedding_configs'')
      | Some configs \<Rightarrow>
          (case bulk_embed configs data st [] of
             Inl e \<Rightarrow> Inl e
           | Inr (st', evs) \<Rightarrow>
               Inr \<lparr> bulk_persisted = st', bulk_events = evs,
                     bulk_returned = refresh_all data st' \<rparr>))"

subsection \<open>\<open>update\<close>\<close>

type_synonym 'a payload = "(string \<times> 'a pyval) list"

fun update_embed ::
  "'a configs \<Rightarrow> 'a payload \<Rightarrow> 'a embed_event list
     \<Rightarrow> py_error + ('a payload \<times> 'a embed_event list)" where
  "update_embed [] vals evs = Inr (vals, evs)"
| "update_embed ((field_name, config) # rest) vals evs =
     (if field_name \<in> set (dict_keys vals) then update_embed rest vals evs
      else
        (case map_of vals (cfg_source_field_name config) of
           None \<Rightarrow> update_embed rest vals evs
         | Some embedding_source \<Rightarrow>
             (case cfg_embed_fn config of
                None \<Rightarrow> Inl (no_attribute ''get_source_embedding'')
              | Some fn \<Rightarrow>
                  update_embed rest
                    (dict_set vals field_name (get_source_embedding fn embedding_source))
                    (evs @ [EmbedOne field_name embedding_source]))))"

text \<open>
  The statement \<open>update(model).filter(*clauses).values(values)\<close>, as data.
  \<open>build_filter_clauses\<close> (of \<open>pytidb.filters\<close>) is the parameter \<open>bfc\<close>; it may raise.
\<close>

record ('a, 'c) update_stmt =
  upd_table :: string
  upd_where :: "'c list"
  upd_values :: "'a payload"

text \<open>
  What a call of \<open>update\<close> leaves behind: the value it returns (\<open>None\<close> is Python's \<open>None\<close>,
  \<open>Some o\<close> an outcome of the session's \<open>execute\<close>), the caller's dictionary after the call,
  the statements executed, and the embedding calls made.
\<close>

record ('a, 'c, 'o) update_result =
  upd_return :: "'o option"
  upd_payload :: "'a payload"
  upd_executed :: "('a, 'c) update_stmt list"
  upd_events :: "'a embed_event list"

definition update ::
  "('f option \<Rightarrow> column list \<Rightarrow> 'a schema \<Rightarrow> py_error + 'c list) \<Rightarrow> 'a table \<Rightarrow> 'a payload
     \<Rightarrow> 'f option \<Rightarrow> py_error + ('a, 'c, 'o) update_result" where
  "update bfc tbl vals filters =
     (case t_auto_embedding_configs tbl of
        None \<Rightarrow> Inl (no_attribute ''_auto_embedding_configs'')
      | Some configs \<Rightarrow>
          (case update_embed configs vals [] of
             Inl e \<Rightarrow> Inl e
           | Inr (vals', evs) \<Rightarrow>
               (case bfc filters (t_columns tbl) (t_table_model tbl) of
                  Inl e \<Rightarrow> Inl e
                | Inr filter_clauses \<Rightarrow>
                    Inr \<lparr> upd_return = None,
                          upd_payload = vals',
                          upd_executed =
                            [\<lparr> upd_table = tbl_name (t_sa_table tbl),
                               upd_where = filter_clauses,
                               upd_values = vals' \<rparr>],
                          upd_events = evs \<rparr>)))"

section \<open>table.py: \<open>query\<close>\<close>

text \<open>\<open>str(value)\<close>, for the message of the direction error.\<close>

definition digit_char :: "nat \<Rightarrow> char" where
  "digit_char n = ''0123456789'' ! n"

fun nat_str :: "nat \<Rightarrow> string" where
  "nat_str n = (if n < 10 then [digit_char n] else nat_str (n div 10) @ [digit_char (n mod 10)])"

definition int_str :: "int \<Rightarrow> string" where
  "int_str i = (if i < 0 then ''-'' @ nat_str (nat (- i)) else nat_str (nat i))"

definition py_str :: "('a \<Rightarrow> string) \<Rightarrow> 'a pyval \<Rightarrow> string" where
  "py_str vec_str v =
     (case v of
        PNone \<Rightarrow> ''None''
      | PBool b \<Rightarrow> (if b then ''True'' else ''False'')
      | PInt i \<Rightarrow> int_str i
      | PStr s \<Rightarrow> s
      | PVec x \<Rightarrow> vec_str x)"

text \<open>
  An ordering term of the statement: a column (ascending, the SQL default), a column's
  \<open>.desc()\<close>, or an expression the caller built. The \<open>order_by\<close> argument is a list of
  such expressions, a column name, a dictionary from names to directions, or none of the
  three.
\<close>

datatype order_term = OrderCol string | OrderColDesc string | OrderExpr string

datatype 'a order_by = NoOrder | OrderByList "order_term list" | OrderByStr string
  | OrderByDict "(string \<times> 'a pyval) list"

record 'c select_stmt =
  sel_table :: string
  sel_where :: "'c list"
  sel_order_by :: "order_term list"
  sel_limit :: "int option"
  sel_offset :: "int option"

definition add_order :: "'c select_stmt \<Rightarrow> order_term list \<Rightarrow> 'c select_stmt" where
  "add_order stmt terms = stmt\<lparr>sel_order_by := sel_order_by stmt @ terms\<rparr>"

definition unknown_order_column :: "string \<Rightarrow> py_error" where
  "unknown_order_column n = KeyError (''Unknown order by column: '' @ n)"

definition invalid_direction :: "string \<Rightarrow> py_error" where
  "invalid_direction v =
     ValueError (''Invalid order direction value (allowed: '' @ quoted ''desc'' @ '', ''
                 @ quoted ''asc'' @ ''): '' @ v)"

fun order_by_dict ::
  "('a \<Rightarrow> string) \<Rightarrow> column list \<Rightarrow> (string \<times> 'a pyval) list \<Rightarrow> 'c select_stmt
     \<Rightarrow> py_error + 'c select_stmt" where
  "order_by_dict vec_str columns [] stmt = Inr stmt"
| "order_by_dict vec_str columns ((key, val) # rest) stmt =
     (if key \<notin> set (col_names columns) then Inl (unknown_order_column key)
      else if val = PStr ''desc''
      then order_by_dict vec_str columns rest (add_order stmt [OrderColDesc key])
      else if val = PStr ''asc''
      then order_by_dict vec_str columns rest (add_order stmt [OrderCol key])
      else Inl (invalid_direction (py_str vec_str val)))"

definition apply_order_by ::
  "('a \<Rightarrow> string) \<Rightarrow> column list \<Rightarrow> 'a order_by \<Rightarrow> 'c select_stmt
     \<Rightarrow> py_error + 'c select_stmt" where
  "apply_order_by vec_str columns order_by stmt =
     (case order_by of
        OrderByList terms \<Rightarrow> Inr (add_order stmt terms)
      | OrderByStr n \<Rightarrow>
          (if n \<notin> set (col_names columns) then Inl (unknown_order_column n)
           else Inr (add_order stmt [OrderCol n]))
      | OrderByDict entries \<Rightarrow> order_by_dict vec_str columns entries stmt
      | NoOrder \<Rightarrow> Inr stmt)"

definition apply_filters ::
  "('f option \<Rightarrow> column list \<Rightarrow> 'a schema \<Rightarrow> py_error + 'c list) \<Rightarrow> 'a table \<Rightarrow> 'f option
     \<Rightarrow> 'c select_stmt \<Rightarrow> py_error + 'c select_stmt" where
  "apply_filters bfc tbl filters stmt =
     (case filters of
        None \<Rightarrow> Inr stmt
      | Some f \<Rightarrow>
          (case bfc (Some f) (t_columns tbl) (t_table_model tbl) of
             Inl e \<Rightarrow> Inl e
           | Inr filter_clauses \<Rightarrow> Inr (stmt\<lparr>sel_where := sel_where stmt @ filter_clauses\<rparr>)))"

definition paginate :: "int option \<Rightarrow> int option \<Rightarrow> 'c select_stmt \<Rightarrow> 'c select_stmt" where
  "paginate limit offset stmt =
     (let stmt1 = (case limit of None \<Rightarrow> stmt | Some l \<Rightarrow> stmt\<lparr>sel_limit := Some l\<rparr>)
      in (case offset of None \<Rightarrow> stmt1 | Some k \<Rightarrow> stmt1\<lparr>sel_offset := Some k\<rparr>))"

text \<open>
  \<open>query\<close>: the result, and the statements the session executed. \<open>exec\<close> is the session's
  \<open>exec(stmt).all()\<close> wrapped into the query result.
\<close>

definition query ::
  "('f option \<Rightarrow> column list \<Rightarrow> 'a schema \<Rightarrow> py_error + 'c list) \<Rightarrow> ('c select_stmt \<Rightarrow> 'r)
     \<Rightarrow> ('a \<Rightarrow> string) \<Rightarrow> 'a table \<Rightarrow> 'f option \<Rightarrow> 'a order_by \<Rightarrow> int option \<Rightarrow> int option
     \<Rightarrow> (py_error + 'r) \<times> 'c select_stmt list" where
  "query bfc exec vec_str tbl filters order_by limit offset =
     (let stmt = \<lparr> sel_table = tbl_name (t_sa_table tbl), sel_where = [],
                   sel_order_by = [], sel_limit = None, sel_offset = None \<rparr>
      in case apply_filters bfc tbl filters stmt of
           Inl e \<Rightarrow> (Inl e, [])
         | Inr stmt1 \<Rightarrow>
             (case apply_order_by vec_str (t_columns tbl) order_by stmt1 of
                Inl e \<Rightarrow> (Inl e, [])
              | Inr stmt2 \<Rightarrow>
                  (let stmt3 = paginate limit offset stmt2
                   in (Inr (exec stmt3), [stmt3]))))"

section \<open>Notions the statements use\<close>

text \<open>
  The filters of a call compile: there are none, or \<open>build_filter_clauses\<close> returns
  clauses for them.
\<close>

definition filters_compile ::
  "('f option \<Rightarrow> column list \<Rightarrow> 'a schema \<Rightarrow> py_error + 'c list) \<Rightarrow> 'a table \<Rightarrow> 'f option
     \<Rightarrow> bool" where
  "filters_compile bfc tbl filters =
     (case filters of
        None \<Rightarrow> True
      | Some f \<Rightarrow>
          (case bfc (Some f) (t_columns tbl) (t_table_model tbl) of
             Inl e \<Rightarrow> False
           | Inr cl \<Rightarrow> True))"

text \<open>
  An entry of an \<open>order_by\<close> dictionary is valid when its key is a column of the table and
  its direction is \<open>"desc"\<close> or \<open>"asc"\<close>; \<open>entry_term\<close> is the ordering it asks for. A
  direction is one of the two strings.
\<close>

definition valid_entry :: "column list \<Rightarrow> string \<times> 'a pyval \<Rightarrow> bool" where
  "valid_entry columns e =
     (fst e \<in> set (col_names columns) \<and> (snd e = PStr ''desc'' \<or> snd e = PStr ''asc''))"

definition is_direction :: "'a pyval \<Rightarrow> bool" where
  "is_direction v = (v = PStr ''asc'' \<or> v = PStr ''desc'')"

definition entry_term :: "string \<times> 'a pyval \<Rightarrow> order_term" where
  "entry_term e = (if snd e = PStr ''desc'' then OrderColDesc (fst e) else OrderCol (fst e))"

text \<open>
  The configurations as the constructor leaves them: a dictionary (no key twice), each
  entry with an embedding function.
\<close>

definition has_embed_fn :: "string \<times> 'a embed_config \<Rightarrow> bool" where
  "has_embed_fn fc = (cfg_embed_fn (snd fc) \<noteq> None)"

definition wf_configs :: "'a configs \<Rightarrow> bool" where
  "wf_configs configs = (distinct (dict_keys configs) \<and> list_all has_embed_fn configs)"

text \<open>The events that concern one vector field.\<close>

fun event_field :: "'a embed_event \<Rightarrow> string" where
  "event_field (EmbedOne f v) = f"
| "event_field (EmbedBatch f vs) = f"
| "event_field (SetAttr i f v) = f"

definition events_of :: "string \<Rightarrow> 'a embed_event list \<Rightarrow> 'a embed_event list" where
  "events_of f evs = filter (\<lambda>e. event_field e = f) evs"

text \<open>
  A record needs the embedding of a configuration when its vector field is null and it
  has the source field.
\<close>

definition needs_embedding :: "string \<Rightarrow> string \<Rightarrow> 'a store \<Rightarrow> nat \<Rightarrow> bool" where
  "needs_embedding field_name source st item =
     (st item field_name = Some PNone \<and> st item source \<noteq> None)"

text \<open>
  The index the synchronizer appends for a vector field and for a text field, and the
  key it compares: the distance expression of (column, metric), and the column name.
\<close>

definition field_expression ::
  "(string \<Rightarrow> string \<Rightarrow> string) \<Rightarrow> string \<times> 'a field_info \<Rightarrow> string" where
  "field_expression fde nf = fde (fst nf) (get_distance_metric (snd nf))"

definition vector_index_for ::
  "(string \<Rightarrow> string \<Rightarrow> string) \<Rightarrow> string \<times> 'a field_info \<Rightarrow> sa_index" where
  "vector_index_for fde nf =
     VectorIndex fde (vec_idx_name (fst nf) (get_distance_metric (snd nf))) (fst nf)
       (get_distance_metric (snd nf)) (get_algorithm (snd nf))"

definition fulltext_index_for :: "string \<times> 'a field_info \<Rightarrow> sa_index" where
  "fulltext_index_for nf =
     FullTextIndex (fts_idx_name (fst nf)) (fst nf) (get_fts_parser (snd nf))"

text \<open>
  The schema types the constructor accepts, and the errors that are a \<open>TypeError\<close>.
\<close>

definition recognized :: "metaclass \<Rightarrow> bool" where
  "recognized m = (m = TableModelMeta \<or> m = SQLModelMetaclass \<or> m = DeclarativeMeta)"

definition is_TypeError :: "py_error \<Rightarrow> bool" where
  "is_TypeError e = (case e of TypeError m \<Rightarrow> True | _ \<Rightarrow> False)"

section \<open>A worked example\<close>

text \<open>
  The scenario of the spec: a table \<open>docs\<close> with an integer key \<open>id\<close>, a text field
  \<open>text\<close>, and a vector field \<open>embedding\<close> with metric COSINE, sourced from \<open>text\<close>. The
  embedding function of the example sends a string to the vector named by its length;
  the distance expression is written as the database writes it.
\<close>

definition len_vec :: "nat pyval \<Rightarrow> nat pyval" where
  "len_vec v = (case v of PStr s \<Rightarrow> PVec (length s) | _ \<Rightarrow> PVec 0)"

definition len_embed :: "nat embed_fn" where
  "len_embed = \<lparr> get_source_embedding = len_vec, get_source_embeddings = map len_vec \<rparr>"

definition example_fde :: "string \<Rightarrow> string \<Rightarrow> string" where
  "example_fde column_name distance_metric =
     ''(VEC_'' @ distance_metric @ ''_DISTANCE('' @ column_name @ ''))''"

definition plain_field :: "nat field_info" where
  "plain_field =
     \<lparr> attr_field_type = None, attr_embed_fn = None, attr_source_field = None,
       attr_skip_index = None, attr_distance_metric = None, attr_algorithm = None,
       attr_fts_parser = None \<rparr>"

definition docs_text_field :: "nat field_info" where
  "docs_text_field = plain_field\<lparr> attr_field_type := Some ''text'' \<rparr>"

definition docs_embedding_field :: "nat field_info" where
  "docs_embedding_field =
     plain_field\<lparr> attr_field_type := Some ''vector'', attr_embed_fn := Some len_embed,
                  attr_source_field := Some ''text'', attr_distance_metric := Some ''COSINE'' \<rparr>"

definition docs_columns :: "column list" where
  "docs_columns =
     [\<lparr> col_table = ''docs'', col_name = ''id'', col_type = Instance Integer \<rparr>,
      \<lparr> col_table = ''docs'', col_name = ''text'', col_type = Instance AutoString \<rparr>,
      \<lparr> col_table = ''docs'', col_name = ''embedding'', col_type = Instance VectorType \<rparr>]"

definition docs_sa_table :: sa_table where
  "docs_sa_table =
     \<lparr> tbl_name = ''docs'', tbl_columns = docs_columns, tbl_primary_key = [''id''],
       tbl_indexes = [] \<rparr>"

definition docs_schema :: "nat schema" where
  "docs_schema =
     \<lparr> sch_metaclass = TableModelMeta, sch_table = docs_sa_table,
       sch_pydantic_fields =
         Some [(''id'', plain_field), (''text'', docs_text_field),
               (''embedding'', docs_embedding_field)] \<rparr>"

definition docs_config :: "nat embed_config" where
  "docs_config =
     \<lparr> cfg_embed_fn = Some len_embed, cfg_vector_field = docs_embedding_field,
       cfg_vector_field_name = ''embedding'', cfg_source_field_name = ''text'' \<rparr>"

definition docs_indexed :: sa_table where
  "docs_indexed =
     docs_sa_table\<lparr> tbl_indexes :=
       [VectorIndex example_fde ''vec_idx_embedding_cosine'' ''embedding'' ''COSINE'' ''HNSW'',
        FullTextIndex ''fts_idx_text'' ''text'' ''MULTILINGUAL''] \<rparr>"

definition docs_table :: "nat table" where
  "docs_table =
     \<lparr> t_table_model = docs_schema\<lparr> sch_table := docs_indexed \<rparr>,
       t_sa_table = docs_indexed,
       t_columns = docs_columns,
       t_vector_columns =
         [\<lparr> col_table = ''docs'', col_name = ''embedding'', col_type = Instance VectorType \<rparr>],
       t_text_columns =
         [\<lparr> col_table = ''docs'', col_name = ''text'', col_type = Instance AutoString \<rparr>],
       t_auto_embedding_configs = Some [(''embedding'', docs_config)],
       t_vector_column =
         Some \<lparr> col_table = ''docs'', col_name = ''embedding'', col_type = Instance VectorType \<rparr>,
       t_text_column =
         Some \<lparr> col_table = ''docs'', col_name = ''text'', col_type = Instance AutoString \<rparr> \<rparr>"

text \<open>
  A second table, \<open>notes\<close>, with two vector fields: \<open>summary_vec\<close> is sourced from \<open>text\<close>,
  and \<open>meta_vec\<close> is sourced from \<open>summary_vec\<close>, with an embedding function that tells a
  vector from \<open>None\<close>. Neither field asks for an index.
\<close>

definition succ_vec :: "nat pyval \<Rightarrow> nat pyval" where
  "succ_vec v = (case v of PVec n \<Rightarrow> PVec (Suc n) | _ \<Rightarrow> PVec 0)"

definition succ_embed :: "nat embed_fn" where
  "succ_embed = \<lparr> get_source_embedding = succ_vec, get_source_embeddings = map succ_vec \<rparr>"

definition notes_summary_field :: "nat field_info" where
  "notes_summary_field =
     plain_field\<lparr> attr_field_type := Some ''vector'', attr_embed_fn := Some len_embed,
                  attr_source_field := Some ''text'', attr_skip_index := Some True \<rparr>"

definition notes_meta_field :: "nat field_info" where
  "notes_meta_field =
     plain_field\<lparr> attr_field_type := Some ''vector'', attr_embed_fn := Some succ_embed,
                  attr_source_field := Some ''summary_vec'', attr_skip_index := Some True \<rparr>"

definition notes_columns :: "column list" where
  "notes_columns =
     [\<lparr> col_table = ''notes'', col_name = ''id'', col_type = Instance Integer \<rparr>,
      \<lparr> col_table = ''notes'', col_name = ''text'', col_type = Instance Text \<rparr>,
      \<lparr> col_table = ''notes'', col_name = ''summary_vec'', col_type = Instance VectorType \<rparr>,
      \<lparr> col_table = ''notes'', col_name = ''meta_vec'', col_type = Instance VectorType \<rparr>]"

definition notes_sa_table :: sa_table where
  "notes_sa_table =
     \<lparr> tbl_name = ''notes'', tbl_columns = notes_columns, tbl_primary_key = [''id''],
       tbl_indexes = [] \<rparr>"

definition notes_schema :: "nat schema" where
  "notes_schema =
     \<lparr> sch_metaclass = SQLModelMetaclass, sch_table = notes_sa_table,
       sch_pydantic_fields =
         Some [(''id'', plain_field), (''text'', plain_field),
               (''summary_vec'', notes_summary_field), (''meta_vec'', notes_meta_field)] \<rparr>"

definition notes_summary_config :: "nat embed_config" where
  "notes_summary_config =
     \<lparr> cfg_embed_fn = Some len_embed, cfg_vector_field = notes_summary_field,
       cfg_vector_field_name = ''summary_vec'', cfg_source_field_name = ''text'' \<rparr>"

definition notes_meta_config :: "nat embed_config" where
  "notes_meta_config =
     \<lparr> cfg_embed_fn = Some succ_embed, cfg_vector_field = notes_meta_field,
       cfg_vector_field_name = ''meta_vec'', cfg_source_field_name = ''summary_vec'' \<rparr>"

definition notes_table :: "nat table" where
  "notes_table =
     \<lparr> t_table_model = notes_schema,
       t_sa_table = notes_sa_table,
       t_columns = notes_columns,
       t_vector_columns =
         [\<lparr> col_table = ''notes'', col_name = ''summary_vec'', col_type = Instance VectorType \<rparr>,
          \<lparr> col_table = ''notes'', col_name = ''meta_vec'', col_type = Instance VectorType \<rparr>],
       t_text_columns =
         [\<lparr> col_table = ''notes'', col_name = ''text'', col_type = Instance Text \<rparr>],
       t_auto_embedding_configs =
         Some [(''summary_vec'', notes_summary_config), (''meta_vec'', notes_meta_config)],
       t_vector_column = None,
       t_text_column =
         Some \<lparr> col_table = ''notes'', col_name = ''text'', col_type = Instance Text \<rparr> \<rparr>"

text \<open>An engine that creates every table.\<close>

definition engine_ok :: "sa_table \<Rightarrow> bool \<Rightarrow> string option" where
  "engine_ok t checkfirst = None"

definition notes_record :: "nat obj" where
  "notes_record =
     map_of [(''id'', PInt 1), (''text'', PStr ''hello''), (''summary_vec'', PNone),
             (''meta_vec'', PNone)]"

text \<open>
  Three records of \<open>docs\<close> in a store, the second with a vector of its own, and a session
  whose refresh changes nothing.
\<close>

definition docs_store :: "nat store" where
  "docs_store a =
     (if a = 0 then map_of [(''id'', PInt 1), (''text'', PStr ''hello''), (''embedding'', PNone)]
      else if a = 1 then map_of [(''id'', PInt 2), (''text'', PStr ''hi''), (''embedding'', PVec 9)]
      else map_of [(''id'', PInt 3), (''text'', PStr ''abc''), (''embedding'', PNone)])"

definition keep_store :: "nat list \<Rightarrow> nat store \<Rightarrow> nat store" where
  "keep_store data st = st"

text \<open>The collaborators of the example: no filters to compile, a session that answers
  with the statement it was given, nothing to print for a vector.\<close>

definition no_filters ::
  "unit option \<Rightarrow> column list \<Rightarrow> nat schema \<Rightarrow> py_error + unit list" where
  "no_filters f cols m = Inr []"

definition echo_exec :: "unit select_stmt \<Rightarrow> unit select_stmt" where
  "echo_exec stmt = stmt"

definition no_vec_str :: "nat \<Rightarrow> string" where
  "no_vec_str v = []"






section \<open>Properties of the column checks\<close>

lemma col_lookup_None: "col_lookup cols n = None \<longleftrightarrow> n \<notin> set (col_names cols)"
  by (auto simp: col_lookup_def col_names_def find_None_iff)

lemma col_lookup_Some: "col_lookup cols n = Some c \<Longrightarrow> c \<in> set cols \<and> col_name c = n"
  by (auto simp: col_lookup_def find_Some_iff)

text \<open>
  \<open>check_text_column\<close> raises exactly when the name is absent or the named column is not
  string-typed, and otherwise returns the named column.
\<close>

lemma check_text_column_raises_iff:
  "(\<exists>e. check_text_column cols n = Inl (ValueError e)) \<longleftrightarrow>
     (n \<notin> set (col_names cols) \<or>
      (\<exists>c. col_lookup cols n = Some c \<and> \<not> isinstance (col_type c) String
            \<and> \<not> isinstance (col_type c) AutoString))"
proof (cases "col_lookup cols n")
  case None
  then show ?thesis by (simp add: check_text_column_def col_lookup_None [symmetric])
next
  case (Some c)
  then have "n \<in> set (col_names cols)"
    using col_lookup_None [of cols n] by auto
  with Some show ?thesis by (auto simp: check_text_column_def)
qed

lemma check_text_column_returns:
  "check_text_column cols n = Inr c \<longleftrightarrow>
     (col_lookup cols n = Some c \<and>
      (isinstance (col_type c) String \<or> isinstance (col_type c) AutoString))"
  by (auto simp: check_text_column_def split: option.splits)

text \<open>
  A column whose type derives from \<open>String\<close>, such as \<open>VARCHAR\<close>, is a text column for the
  classifier and for the check.
\<close>

lemma check_text_column_string_subclass:
  "filter_text_columns
     [\<lparr> col_table = ''docs'', col_name = ''title'',
        col_type = Instance (Subclass ''VARCHAR'' String) \<rparr>]
   = [\<lparr> col_table = ''docs'', col_name = ''title'',
        col_type = Instance (Subclass ''VARCHAR'' String) \<rparr>]
   \<and> check_text_column
     [\<lparr> col_table = ''docs'', col_name = ''title'',
        col_type = Instance (Subclass ''VARCHAR'' String) \<rparr>] ''title''
   = Inr \<lparr> col_table = ''docs'', col_name = ''title'',
           col_type = Instance (Subclass ''VARCHAR'' String) \<rparr>"
  by (simp add: filter_text_columns_def check_text_column_def col_lookup_def)

text \<open>
  \<open>check_vector_column\<close> compares the column's type object with the class \<open>VectorType\<close>
  by \<open>!=\<close>, where \<open>filter_vector_columns\<close> and \<open>check_text_column\<close> ask \<open>isinstance\<close>. A
  column holds an instance of its type, so the comparison is true for every column the
  classifier puts into the vector set, and the check rejects it.
\<close>

lemma check_vector_column_instance:
  "col_lookup cols n = Some c \<Longrightarrow> col_type c = Instance k \<Longrightarrow>
     check_vector_column cols n = Inl (ValueError (''Invalid vector column: '' @ column_str c))"
  by (simp add: check_vector_column_def ne_class_def)

text \<open>
  C3, at the input where the code leaves the claim: a table \<open>docs\<close> whose column
  \<open>embedding\<close> has the type \<open>VectorType(...)\<close>. The classifier counts the column as a
  vector column; \<open>check_vector_column\<close> raises the \<open>ValueError\<close> for it instead of
  returning it.
\<close>

theorem check_vector_column_rejects_vector_column:
  "filter_vector_columns
     [\<lparr> col_table = ''docs'', col_name = ''embedding'', col_type = Instance VectorType \<rparr>]
   = [\<lparr> col_table = ''docs'', col_name = ''embedding'', col_type = Instance VectorType \<rparr>]
   \<and> check_vector_column
     [\<lparr> col_table = ''docs'', col_name = ''embedding'', col_type = Instance VectorType \<rparr>]
     ''embedding''
   = Inl (ValueError ''Invalid vector column: docs.embedding'')"
  by (simp add: filter_vector_columns_def check_vector_column_def col_lookup_def
      ne_class_def column_str_def)

section \<open>Properties of row identity resolution\<close>

lemma getitems_all_present:
  "set ns \<subseteq> dom (map_of d) \<Longrightarrow> getitems d ns = Inr (map (\<lambda>n. the (map_of d n)) ns)"
  by (induction ns) (auto simp: getitem_def split: option.splits)

lemma getitems_first_missing:
  "\<not> set ns \<subseteq> dom (map_of d) \<Longrightarrow>
     getitems d ns = Inl (no_such_column (hd (filter (\<lambda>n. map_of d n = None) ns)))"
proof (induction ns)
  case Nil
  then show ?case by simp
next
  case (Cons n ns)
  show ?case
  proof (cases "map_of d n")
    case None
    then show ?thesis by (simp add: getitem_def)
  next
    case (Some v)
    with Cons.prems have "\<not> set ns \<subseteq> dom (map_of d)" by auto
    with Cons.IH Some show ?thesis by (simp add: getitem_def)
  qed
qed

text \<open>
  The list of available columns as the message prints it: a name with a single quote is
  put in double quotes, a newline is written as an escape.
\<close>

lemma str_list_quotes:
  "str_list [''a'', ''it'' @ [CHR 0x27] @ ''s'', ''x'' @ [CHR 0x0A]]
     = ''['' @ quoted ''a'' @ '', '' @ [CHR 0x22] @ ''it'' @ [CHR 0x27] @ ''s'' @ [CHR 0x22]
       @ '', '' @ quoted (''x'' @ [CHR 0x5C] @ ''n'') @ '']''"
  by (simp add: str_list_def repr_str_def repr_char_def printable_def quoted_def Let_def)

lemma unhashable_iff: "unhashable v \<longleftrightarrow> (\<exists>x. v = PVec x)"
  by (cases v) simp_all

lemma Row_hash_hashable:
  "\<forall>v \<in> set (map snd row). \<not> unhashable v \<Longrightarrow> Row_hash tn h row = Inr (h (map snd row))"
proof -
  assume "\<forall>v \<in> set (map snd row). \<not> unhashable v"
  then have "find unhashable (map snd row) = None"
    unfolding find_None_iff by blast
  then show ?thesis by (simp add: Row_hash_def)
qed

lemma Row_hash_unhashable:
  assumes "\<exists>v \<in> set (map snd row). unhashable v"
  shows "\<exists>x. PVec x \<in> set (map snd row)
           \<and> Row_hash tn h row = Inl (TypeError (''unhashable type: '' @ quoted (tn x)))"
proof (cases "find unhashable (map snd row)")
  case None
  with assms show ?thesis unfolding find_None_iff by blast
next
  case (Some v)
  then have "v \<in> set (map snd row)" "unhashable v"
    unfolding find_Some_iff by (auto simp: nth_mem)
  then obtain x where x: "v = PVec x"
    using unhashable_iff [of v] by auto
  with \<open>v \<in> set (map snd row)\<close> have "PVec x \<in> set (map snd row)" by simp
  with Some x show ?thesis by (auto simp: Row_hash_def)
qed

text \<open>
  C6, as the code has it. Row identity resolution, for a row of a table (its mapping
  \<open>row\<close>, the column names distinct) and the names \<open>pk\<close> of the table's primary-key
  columns:
  \<^item> one primary-key column \<open>c\<close> that the row has: the row's value of \<open>c\<close>;
  \<^item> several primary-key columns, all in the row: the tuple of their values, in the
    order of the key;
  \<^item> a primary-key column missing from the row: a \<open>KeyError\<close> whose message quotes the
    lookup error of the first missing column of the key, which names that column, and
    lists the row's columns;
  \<^item> no primary key, and the row has \<open>_tidb_rowid\<close>: its value, and nothing is raised;
  \<^item> no primary key, no \<open>_tidb_rowid\<close>, and every value of the row hashable: the hash of
    the tuple of the row's values, and nothing is raised;
  \<^item> no primary key, no \<open>_tidb_rowid\<close>, and a vector among the row's values: the
    \<open>TypeError\<close> of hashing a vector.
\<close>

theorem get_row_id_from_row_resolution:
  assumes "distinct (map fst row)"
  shows
  "(map_of row c = Some v \<longrightarrow> get_row_id_from_row tn h row [c] = Inr (Single v))
 \<and> (1 < length pk \<and> set pk \<subseteq> dom (map_of row) \<longrightarrow>
      get_row_id_from_row tn h row pk = Inr (Composite (map (\<lambda>n. the (map_of row n)) pk)))
 \<and> (pk \<noteq> [] \<and> \<not> set pk \<subseteq> dom (map_of row) \<longrightarrow>
      get_row_id_from_row tn h row pk =
        Inl (KeyError (''Primary key column ''
                       @ quoted (''Could not locate column in row for column ''
                                 @ quoted (hd (filter (\<lambda>n. map_of row n = None) pk)))
                       @ '' not found in Row. Available: '' @ str_list (map fst row))))
 \<and> (map_of row ''_tidb_rowid'' = Some r \<longrightarrow> get_row_id_from_row tn h row [] = Inr (Single r))
 \<and> (map_of row ''_tidb_rowid'' = None \<and> (\<forall>v \<in> set (map snd row). \<not> unhashable v) \<longrightarrow>
      get_row_id_from_row tn h row [] = Inr (Single (PInt (h (map snd row)))))
 \<and> (map_of row ''_tidb_rowid'' = None \<and> (\<exists>v \<in> set (map snd row). unhashable v) \<longrightarrow>
      (\<exists>x. PVec x \<in> set (map snd row)
         \<and> get_row_id_from_row tn h row []
             = Inl (TypeError (''unhashable type: '' @ quoted (tn x)))))"
proof (intro conjI impI)
  assume "map_of row c = Some v"
  then show "get_row_id_from_row tn h row [c] = Inr (Single v)"
    by (simp add: get_row_id_from_row_def getitem_def)
next
  assume a: "1 < length pk \<and> set pk \<subseteq> dom (map_of row)"
  then have "pk \<noteq> []" "length pk \<noteq> 1" by auto
  with a show "get_row_id_from_row tn h row pk
      = Inr (Composite (map (\<lambda>n. the (map_of row n)) pk))"
    by (simp add: get_row_id_from_row_def getitems_all_present)
next
  assume a: "pk \<noteq> [] \<and> \<not> set pk \<subseteq> dom (map_of row)"
  let ?c = "hd (filter (\<lambda>n. map_of row n = None) pk)"
  have g: "getitems row pk = Inl (no_such_column ?c)"
    using a by (simp add: getitems_first_missing)
  show "get_row_id_from_row tn h row pk =
        Inl (KeyError (''Primary key column ''
                       @ quoted (''Could not locate column in row for column '' @ quoted ?c)
                       @ '' not found in Row. Available: '' @ str_list (map fst row)))"
  proof (cases "length pk = 1")
    case True
    then obtain n where pk: "pk = [n]" by (cases pk) auto
    with a have "map_of row n = None" by auto
    with pk show ?thesis
      by (simp add: get_row_id_from_row_def getitem_def pk_not_found_def no_such_column_def)
  next
    case False
    with a g show ?thesis
      by (simp add: get_row_id_from_row_def pk_not_found_def no_such_column_def)
  qed
next
  assume "map_of row ''_tidb_rowid'' = Some r"
  then show "get_row_id_from_row tn h row [] = Inr (Single r)"
    by (simp add: get_row_id_from_row_def getitem_def)
next
  assume a: "map_of row ''_tidb_rowid'' = None \<and> (\<forall>v \<in> set (map snd row). \<not> unhashable v)"
  then have "Row_hash tn h row = Inr (h (map snd row))"
    by (intro Row_hash_hashable) simp
  with a show "get_row_id_from_row tn h row [] = Inr (Single (PInt (h (map snd row))))"
    by (simp add: get_row_id_from_row_def getitem_def)
next
  assume a: "map_of row ''_tidb_rowid'' = None \<and> (\<exists>v \<in> set (map snd row). unhashable v)"
  then obtain x where "PVec x \<in> set (map snd row)"
    and "Row_hash tn h row = Inl (TypeError (''unhashable type: '' @ quoted (tn x)))"
    using Row_hash_unhashable [of row tn h] by blast
  with a show "\<exists>x. PVec x \<in> set (map snd row)
         \<and> get_row_id_from_row tn h row []
             = Inl (TypeError (''unhashable type: '' @ quoted (tn x)))"
    by (intro exI [of _ x]) (simp add: get_row_id_from_row_def getitem_def)
qed

text \<open>
  C6 as it was stated has the resolver return a hash without raising whenever the table
  has no primary key and the row no \<open>_tidb_rowid\<close>. A row of a table with a text and a
  vector column, read without \<open>_tidb_rowid\<close>, holds the vector as an array, and hashing
  it raises.
\<close>

theorem get_row_id_from_row_resolution_counterexample:
  "map_of [(''text'', PStr ''hello''), (''embedding'', PVec (5 :: nat))] ''_tidb_rowid'' = None
 \<and> get_row_id_from_row (\<lambda>x. ''numpy.ndarray'') (\<lambda>vs. 7)
      [(''text'', PStr ''hello''), (''embedding'', PVec (5 :: nat))] []
    = Inl (TypeError (''unhashable type: '' @ quoted ''numpy.ndarray''))"
  by (simp add: get_row_id_from_row_def getitem_def Row_hash_def)

text \<open>
  The six cases at concrete rows: a single key \<open>a\<close>, the composite key \<open>(a, b)\<close>, the key
  \<open>(a, c, b)\<close> on a row without \<open>c\<close>, and no key: with \<open>_tidb_rowid\<close>, without it on a row
  of hashable values, and without it on a row with a vector.
\<close>

theorem get_row_id_from_row_resolution_witness:
  "get_row_id_from_row (\<lambda>x. ''list'') (\<lambda>vs. 7) [(''a'', PInt 1), (''b'', PStr ''x'')] [''a'']
      = Inr (Single (PInt 1 :: unit pyval))
 \<and> get_row_id_from_row (\<lambda>x. ''list'') (\<lambda>vs. 7) [(''a'', PInt 1), (''b'', PStr ''x'')]
        [''a'', ''b'']
      = Inr (Composite [PInt 1, PStr ''x'' :: unit pyval])
 \<and> get_row_id_from_row (\<lambda>x. ''list'') (\<lambda>vs. 7)
        [(''a'', PInt 1 :: unit pyval), (''b'', PStr ''x'')] [''a'', ''c'', ''b'']
      = Inl (KeyError (''Primary key column ''
                       @ quoted (''Could not locate column in row for column '' @ quoted ''c'')
                       @ '' not found in Row. Available: ['' @ quoted ''a'' @ '', ''
                       @ quoted ''b'' @ '']''))
 \<and> get_row_id_from_row (\<lambda>x. ''list'') (\<lambda>vs. 7) [(''_tidb_rowid'', PInt 5 :: unit pyval)] []
      = Inr (Single (PInt 5))
 \<and> get_row_id_from_row (\<lambda>x. ''list'') (\<lambda>vs. 7) [(''a'', PInt 1 :: unit pyval)] []
      = Inr (Single (PInt 7))
 \<and> get_row_id_from_row (\<lambda>x. ''list'') (\<lambda>vs. 7) [(''a'', PInt 1), (''v'', PVec ())] []
      = Inl (TypeError (''unhashable type: '' @ quoted ''list''))"
  using
    get_row_id_from_row_resolution
      [of "[(''a'', PInt 1 :: unit pyval), (''b'', PStr ''x'')]" "''a''" "PInt 1"
          "\<lambda>x. ''list''" "\<lambda>vs. 7" "[''a'', ''b'']" "PInt 5"]
    get_row_id_from_row_resolution
      [of "[(''a'', PInt 1 :: unit pyval), (''b'', PStr ''x'')]" "''a''" "PInt 1"
          "\<lambda>x. ''list''" "\<lambda>vs. 7" "[''a'', ''c'', ''b'']" "PInt 5"]
    get_row_id_from_row_resolution
      [of "[(''_tidb_rowid'', PInt 5 :: unit pyval)]" "''a''" "PInt 1"
          "\<lambda>x. ''list''" "\<lambda>vs. 7" "[''a'', ''b'']" "PInt 5"]
    get_row_id_from_row_resolution
      [of "[(''a'', PInt 1 :: unit pyval)]" "''a''" "PInt 1" "\<lambda>x. ''list''" "\<lambda>vs. 7"
          "[''a'', ''b'']" "PInt 5"]
    get_row_id_from_row_resolution
      [of "[(''a'', PInt 1), (''v'', PVec ())]" "''a''" "PInt 1" "\<lambda>x. ''list''" "\<lambda>vs. 7"
          "[''a'', ''b'']" "PInt 5"]
  by (simp add: str_list_def repr_str_def repr_char_def printable_def quoted_def Let_def)

section \<open>Properties of the connection string\<close>














section \<open>Properties of \<open>query\<close>\<close>

lemma add_order_add_order: "add_order (add_order stmt xs) ys = add_order stmt (xs @ ys)"
  by (simp add: add_order_def)

lemma add_order_Nil: "add_order stmt [] = stmt"
  by (simp add: add_order_def)

lemma order_by_dict_valid_prefix:
  "list_all (valid_entry columns) pre \<Longrightarrow>
     order_by_dict vs columns (pre @ rest) stmt =
     order_by_dict vs columns rest (add_order stmt (map entry_term pre))"
proof (induction pre arbitrary: stmt)
  case Nil
  then show ?case by (simp add: add_order_Nil)
next
  case (Cons e pre)
  obtain k v where e: "e = (k, v)" by (cases e)
  from Cons.prems have ve: "valid_entry columns e"
    and pre: "list_all (valid_entry columns) pre"
    by simp_all
  from ve e have k: "k \<in> set (col_names columns)"
    and v: "v = PStr ''desc'' \<or> v = PStr ''asc''"
    by (simp_all add: valid_entry_def)
  from v show ?case
  proof
    assume "v = PStr ''desc''"
    with e k Cons.IH [OF pre] show ?thesis
      by (simp add: entry_term_def add_order_add_order)
  next
    assume "v = PStr ''asc''"
    with e k Cons.IH [OF pre] show ?thesis
      by (simp add: entry_term_def add_order_add_order)
  qed
qed

lemma order_by_dict_all_valid:
  "list_all (valid_entry columns) entries \<Longrightarrow>
     order_by_dict vs columns entries stmt = Inr (add_order stmt (map entry_term entries))"
  using order_by_dict_valid_prefix [of columns entries vs "[]" stmt] by simp

lemma order_by_dict_first_unknown:
  "list_all (valid_entry columns) pre \<Longrightarrow> k \<notin> set (col_names columns) \<Longrightarrow>
     order_by_dict vs columns (pre @ (k, v) # post) stmt = Inl (unknown_order_column k)"
  by (simp add: order_by_dict_valid_prefix)

lemma order_by_dict_first_invalid:
  "list_all (valid_entry columns) pre \<Longrightarrow> k \<in> set (col_names columns) \<Longrightarrow>
   v \<noteq> PStr ''desc'' \<Longrightarrow> v \<noteq> PStr ''asc'' \<Longrightarrow>
     order_by_dict vs columns (pre @ (k, v) # post) stmt = Inl (invalid_direction (py_str vs v))"
  by (simp add: order_by_dict_valid_prefix)

lemma order_by_dict_directions_unknown:
  "list_all (\<lambda>e. is_direction (snd e)) entries \<Longrightarrow>
   \<not> set (map fst entries) \<subseteq> set (col_names columns) \<Longrightarrow>
     order_by_dict vs columns entries stmt =
       Inl (unknown_order_column
              (hd (filter (\<lambda>k. k \<notin> set (col_names columns)) (map fst entries))))"
proof (induction entries arbitrary: stmt)
  case Nil
  then show ?case by simp
next
  case (Cons e entries)
  obtain k v where e: "e = (k, v)" by (cases e)
  from Cons.prems(1) e have v: "v = PStr ''asc'' \<or> v = PStr ''desc''"
    and rest: "list_all (\<lambda>e. is_direction (snd e)) entries"
    by (simp_all add: is_direction_def)
  show ?case
  proof (cases "k \<in> set (col_names columns)")
    case False
    with e show ?thesis by simp
  next
    case True
    with Cons.prems(2) e have "\<not> set (map fst entries) \<subseteq> set (col_names columns)"
      by simp
    from Cons.IH [OF rest this] True e v show ?thesis by auto
  qed
qed

lemma first_unknown_key:
  "\<not> set ks \<subseteq> A \<Longrightarrow> hd (filter (\<lambda>k. k \<notin> A) ks) \<in> set ks \<and> hd (filter (\<lambda>k. k \<notin> A) ks) \<notin> A"
proof -
  assume "\<not> set ks \<subseteq> A"
  then have "filter (\<lambda>k. k \<notin> A) ks \<noteq> []"
    by (auto simp: filter_empty_conv)
  then have "hd (filter (\<lambda>k. k \<notin> A) ks) \<in> set (filter (\<lambda>k. k \<notin> A) ks)"
    by (rule hd_in_set)
  then show ?thesis by simp
qed

lemma directions_known_valid:
  "list_all (\<lambda>e. is_direction (snd e)) entries \<Longrightarrow>
   set (map fst entries) \<subseteq> set (col_names columns) \<Longrightarrow>
     list_all (valid_entry columns) entries"
  by (induction entries) (auto simp: valid_entry_def is_direction_def)

lemma order_by_dict_known_no_KeyError:
  "set (map fst entries) \<subseteq> set (col_names columns) \<Longrightarrow>
     order_by_dict vs columns entries stmt \<noteq> Inl (KeyError m)"
proof (induction entries arbitrary: stmt)
  case Nil
  then show ?case by simp
next
  case (Cons e entries)
  obtain k v where e: "e = (k, v)" by (cases e)
  with Cons.prems have k: "k \<in> set (col_names columns)"
    and rest: "set (map fst entries) \<subseteq> set (col_names columns)"
    by simp_all
  show ?case
    using Cons.IH [OF rest] e k by (simp add: invalid_direction_def)
qed

lemma apply_filters_compile:
  "filters_compile bfc tbl filters \<Longrightarrow> \<exists>stmt1. apply_filters bfc tbl filters stmt = Inr stmt1
     \<and> sel_order_by stmt1 = sel_order_by stmt"
  by (auto simp: filters_compile_def apply_filters_def split: option.splits sum.splits)

lemma query_order_error:
  fixes bfc :: "'f option \<Rightarrow> column list \<Rightarrow> 'a schema \<Rightarrow> py_error + 'c list"
  assumes "filters_compile bfc tbl filters"
    and "\<And>stmt :: 'c select_stmt. apply_order_by vs (t_columns tbl) ob stmt = Inl e"
  shows "query bfc exec vs tbl filters ob limit offset = (Inl e, [])"
proof -
  let ?s = "\<lparr> sel_table = tbl_name (t_sa_table tbl), sel_where = [],
                   sel_order_by = [], sel_limit = None, sel_offset = None \<rparr>"
  obtain stmt1 where "apply_filters bfc tbl filters ?s = Inr stmt1"
    using apply_filters_compile [OF assms(1), of ?s] by auto
  with assms(2) show ?thesis by (simp add: query_def Let_def)
qed

lemma sel_order_by_paginate: "sel_order_by (paginate l k stmt) = sel_order_by stmt"
  by (simp add: paginate_def Let_def split: option.splits)

lemma query_order_ok:
  fixes bfc :: "'f option \<Rightarrow> column list \<Rightarrow> 'a schema \<Rightarrow> py_error + 'c list"
  assumes "filters_compile bfc tbl filters"
    and "\<And>stmt :: 'c select_stmt.
           apply_order_by vs (t_columns tbl) ob stmt = Inr (add_order stmt terms)"
  shows "\<exists>stmt. query bfc exec vs tbl filters ob limit offset = (Inr (exec stmt), [stmt])
           \<and> sel_order_by stmt = terms"
proof -
  let ?s = "\<lparr> sel_table = tbl_name (t_sa_table tbl), sel_where = [],
                   sel_order_by = [], sel_limit = None, sel_offset = None \<rparr>"
  obtain stmt1 where s1: "apply_filters bfc tbl filters ?s = Inr stmt1"
    "sel_order_by stmt1 = sel_order_by ?s"
    using apply_filters_compile [OF assms(1), of ?s] by auto
  then have "sel_order_by (paginate limit offset (add_order stmt1 terms)) = terms"
    by (simp add: sel_order_by_paginate add_order_def)
  with s1 assms(2) show ?thesis by (simp add: query_def Let_def)
qed


lemma query_dict_all_valid:
  fixes bfc :: "'f option \<Rightarrow> column list \<Rightarrow> 'a schema \<Rightarrow> py_error + 'c list"
  assumes "filters_compile bfc tbl filters"
    and "list_all (valid_entry (t_columns tbl)) entries"
  shows "\<exists>stmt. query bfc exec vs tbl filters (OrderByDict entries) limit offset
                  = (Inr (exec stmt), [stmt])
           \<and> sel_order_by stmt = map entry_term entries"
  using assms(2) by (intro query_order_ok [OF assms(1)])
    (simp add: apply_order_by_def order_by_dict_all_valid)

text \<open>
  C8. With filters that compile:
  \<^item> a single column name that is not a column of the table fails with the \<open>KeyError\<close>
    \<open>Unknown order by column: <name>\<close>, and no statement is executed;
  \<^item> a mapping from column names to directions that names a column the table does not
    have fails with that \<open>KeyError\<close> for the first such column, and no statement is
    executed;
  \<^item> more generally, so does every dictionary whose entries before the first unknown
    column are valid, whatever follows them;
  \<^item> a known column name is accepted, and a dictionary that names only known columns
    never raises this \<open>KeyError\<close>;
  \<^item> for a mapping from known column names to directions one statement is executed,
    ordered by the entries in the order of the mapping, an entry with direction
    \<open>"desc"\<close> descending.
\<close>

theorem query_order_by_unknown_column:
  fixes bfc :: "'f option \<Rightarrow> column list \<Rightarrow> 'a schema \<Rightarrow> py_error + 'c list"
  assumes "filters_compile bfc tbl filters"
  shows
  "(n \<notin> set (col_names (t_columns tbl)) \<longrightarrow>
      query bfc exec vs tbl filters (OrderByStr n) limit offset
        = (Inl (KeyError (''Unknown order by column: '' @ n)), []))
 \<and> (list_all (\<lambda>e. is_direction (snd e)) entries
      \<and> \<not> set (map fst entries) \<subseteq> set (col_names (t_columns tbl)) \<longrightarrow>
      hd (filter (\<lambda>k. k \<notin> set (col_names (t_columns tbl))) (map fst entries))
        \<in> set (map fst entries)
    \<and> hd (filter (\<lambda>k. k \<notin> set (col_names (t_columns tbl))) (map fst entries))
        \<notin> set (col_names (t_columns tbl))
    \<and> query bfc exec vs tbl filters (OrderByDict entries) limit offset
        = (Inl (KeyError (''Unknown order by column: ''
             @ hd (filter (\<lambda>k. k \<notin> set (col_names (t_columns tbl))) (map fst entries)))),
           []))
 \<and> (list_all (valid_entry (t_columns tbl)) pre \<and> k \<notin> set (col_names (t_columns tbl)) \<longrightarrow>
      query bfc exec vs tbl filters (OrderByDict (pre @ (k, v) # post)) limit offset
        = (Inl (KeyError (''Unknown order by column: '' @ k)), []))
 \<and> (n \<in> set (col_names (t_columns tbl)) \<longrightarrow>
      (\<exists>stmt. query bfc exec vs tbl filters (OrderByStr n) limit offset
                = (Inr (exec stmt), [stmt])
              \<and> sel_order_by stmt = [OrderCol n]))
 \<and> (set (map fst entries) \<subseteq> set (col_names (t_columns tbl)) \<longrightarrow>
      fst (query bfc exec vs tbl filters (OrderByDict entries) limit offset) \<noteq> Inl (KeyError m))
 \<and> (list_all (\<lambda>e. is_direction (snd e)) entries
      \<and> set (map fst entries) \<subseteq> set (col_names (t_columns tbl)) \<longrightarrow>
      (\<exists>stmt. query bfc exec vs tbl filters (OrderByDict entries) limit offset
                = (Inr (exec stmt), [stmt])
              \<and> sel_order_by stmt = map entry_term entries))
 \<and> entry_term (k, PStr ''desc'' :: 'a pyval) = OrderColDesc k"
proof (intro conjI impI)
  assume "n \<notin> set (col_names (t_columns tbl))"
  then show "query bfc exec vs tbl filters (OrderByStr n) limit offset
        = (Inl (KeyError (''Unknown order by column: '' @ n)), [])"
    by (intro query_order_error [OF assms])
      (simp add: apply_order_by_def unknown_order_column_def)
next
  assume a: "list_all (\<lambda>e. is_direction (snd e)) entries
      \<and> \<not> set (map fst entries) \<subseteq> set (col_names (t_columns tbl))"
  then show "hd (filter (\<lambda>k. k \<notin> set (col_names (t_columns tbl))) (map fst entries))
        \<in> set (map fst entries)"
    using first_unknown_key [of "map fst entries" "set (col_names (t_columns tbl))"] by simp
  from a show "hd (filter (\<lambda>k. k \<notin> set (col_names (t_columns tbl))) (map fst entries))
        \<notin> set (col_names (t_columns tbl))"
    using first_unknown_key [of "map fst entries" "set (col_names (t_columns tbl))"] by simp
  from a show "query bfc exec vs tbl filters (OrderByDict entries) limit offset
        = (Inl (KeyError (''Unknown order by column: ''
             @ hd (filter (\<lambda>k. k \<notin> set (col_names (t_columns tbl))) (map fst entries)))),
           [])"
    by (intro query_order_error [OF assms])
      (simp add: apply_order_by_def order_by_dict_directions_unknown
        unknown_order_column_def)
next
  assume "list_all (valid_entry (t_columns tbl)) pre \<and> k \<notin> set (col_names (t_columns tbl))"
  then show "query bfc exec vs tbl filters (OrderByDict (pre @ (k, v) # post)) limit offset
        = (Inl (KeyError (''Unknown order by column: '' @ k)), [])"
    by (intro query_order_error [OF assms])
      (simp add: apply_order_by_def order_by_dict_first_unknown unknown_order_column_def)
next
  assume "n \<in> set (col_names (t_columns tbl))"
  then show "\<exists>stmt. query bfc exec vs tbl filters (OrderByStr n) limit offset
                = (Inr (exec stmt), [stmt])
              \<and> sel_order_by stmt = [OrderCol n]"
    by (intro query_order_ok [OF assms]) (simp add: apply_order_by_def)
next
  assume known: "set (map fst entries) \<subseteq> set (col_names (t_columns tbl))"
  let ?s = "\<lparr> sel_table = tbl_name (t_sa_table tbl), sel_where = ([] :: 'c list),
                   sel_order_by = [], sel_limit = None, sel_offset = None \<rparr>"
  obtain stmt1 where s1: "apply_filters bfc tbl filters ?s = Inr stmt1"
    using apply_filters_compile [OF assms, of ?s] by auto
  have "order_by_dict vs (t_columns tbl) entries stmt1 \<noteq> Inl (KeyError m)"
    using known by (rule order_by_dict_known_no_KeyError)
  with s1 show "fst (query bfc exec vs tbl filters (OrderByDict entries) limit offset)
      \<noteq> Inl (KeyError m)"
    by (auto simp: query_def Let_def apply_order_by_def split: sum.splits)
next
  assume "list_all (\<lambda>e. is_direction (snd e)) entries
      \<and> set (map fst entries) \<subseteq> set (col_names (t_columns tbl))"
  then have "list_all (valid_entry (t_columns tbl)) entries"
    by (intro directions_known_valid) simp_all
  then show "\<exists>stmt. query bfc exec vs tbl filters (OrderByDict entries) limit offset
                = (Inr (exec stmt), [stmt])
              \<and> sel_order_by stmt = map entry_term entries"
    by (rule query_dict_all_valid [OF assms])
next
  show "entry_term (k, PStr ''desc'' :: 'a pyval) = OrderColDesc k"
    by (simp add: entry_term_def)
qed

text \<open>
  C10, as the code has it. With filters that compile: a dictionary whose entries before
  the first invalid direction are all valid, and whose entry with that direction names a
  known column, fails with the \<open>ValueError\<close> that names the allowed directions and the
  value, and no statement is executed. When every entry is valid, one statement is
  executed, ordered by the entries in the order of the dictionary: \<open>"asc"\<close> entries by the
  plain column (ascending), \<open>"desc"\<close> entries by the column's \<open>.desc()\<close>.
\<close>

theorem query_order_by_invalid_direction:
  fixes bfc :: "'f option \<Rightarrow> column list \<Rightarrow> 'a schema \<Rightarrow> py_error + 'c list"
  assumes "filters_compile bfc tbl filters"
  shows
  "(list_all (valid_entry (t_columns tbl)) pre \<and> k \<in> set (col_names (t_columns tbl))
      \<and> v \<noteq> PStr ''desc'' \<and> v \<noteq> PStr ''asc'' \<longrightarrow>
      query bfc exec vs tbl filters (OrderByDict (pre @ (k, v) # post)) limit offset
        = (Inl (ValueError (''Invalid order direction value (allowed: '' @ quoted ''desc''
                            @ '', '' @ quoted ''asc'' @ ''): '' @ py_str vs v)), []))
 \<and> (list_all (valid_entry (t_columns tbl)) entries \<longrightarrow>
      (\<exists>stmt. query bfc exec vs tbl filters (OrderByDict entries) limit offset
                = (Inr (exec stmt), [stmt])
              \<and> sel_order_by stmt = map entry_term entries))
 \<and> entry_term (k, PStr ''asc'' :: 'a pyval) = OrderCol k
 \<and> entry_term (k, PStr ''desc'' :: 'a pyval) = OrderColDesc k"
proof (intro conjI impI)
  assume "list_all (valid_entry (t_columns tbl)) pre \<and> k \<in> set (col_names (t_columns tbl))
      \<and> v \<noteq> PStr ''desc'' \<and> v \<noteq> PStr ''asc''"
  then show "query bfc exec vs tbl filters (OrderByDict (pre @ (k, v) # post)) limit offset
        = (Inl (ValueError (''Invalid order direction value (allowed: '' @ quoted ''desc''
                            @ '', '' @ quoted ''asc'' @ ''): '' @ py_str vs v)), [])"
    by (intro query_order_error [OF assms])
      (simp add: apply_order_by_def order_by_dict_first_invalid invalid_direction_def)
next
  assume "list_all (valid_entry (t_columns tbl)) entries"
  then show "\<exists>stmt. query bfc exec vs tbl filters (OrderByDict entries) limit offset
                = (Inr (exec stmt), [stmt])
              \<and> sel_order_by stmt = map entry_term entries"
    by (rule query_dict_all_valid [OF assms])
next
  show "entry_term (k, PStr ''asc'' :: 'a pyval) = OrderCol k"
    by (simp add: entry_term_def)
next
  show "entry_term (k, PStr ''desc'' :: 'a pyval) = OrderColDesc k"
    by (simp add: entry_term_def)
qed

lemma docs_table_columns: "col_names (t_columns docs_table) = [''id'', ''text'', ''embedding'']"
  by (simp add: docs_table_def docs_columns_def col_names_def)

lemma docs_filters_compile: "filters_compile no_filters docs_table None"
  by (simp add: filters_compile_def)


text \<open>
  C10 as it was stated fails when the entry with the bad direction names an unknown
  column: for \<open>{"nope": "up"}\<close> the direction \<open>up\<close> is neither \<open>asc\<close> nor \<open>desc\<close>, and
  \<open>query\<close> raises the \<open>KeyError\<close> for \<open>nope\<close>, not a \<open>ValueError\<close>.
\<close>

theorem query_order_by_invalid_direction_counterexample:
  "PStr ''up'' \<noteq> (PStr ''asc'' :: nat pyval) \<and> PStr ''up'' \<noteq> (PStr ''desc'' :: nat pyval)
 \<and> query no_filters echo_exec no_vec_str docs_table None
      (OrderByDict [(''nope'', PStr ''up'')]) None None
    = (Inl (KeyError ''Unknown order by column: nope''), [])"
  by (simp add: docs_table_columns query_def apply_filters_def apply_order_by_def
      unknown_order_column_def)

text \<open>
  On the example table: an unknown name alone; a mapping to directions with the unknown
  columns \<open>nope\<close> and \<open>none\<close>; an unknown name after a valid entry and before an entry
  that is not valid; a known name; a dictionary of known names; and a mapping from known
  names to directions.
\<close>

theorem query_order_by_unknown_column_witness:
  "query no_filters echo_exec no_vec_str docs_table None (OrderByStr ''nope'') None None
     = (Inl (KeyError ''Unknown order by column: nope''), [])
 \<and> query no_filters echo_exec no_vec_str docs_table None
      (OrderByDict [(''id'', PStr ''desc''), (''nope'', PStr ''asc''), (''none'', PStr ''asc'')])
      None None
     = (Inl (KeyError ''Unknown order by column: nope''), [])
 \<and> query no_filters echo_exec no_vec_str docs_table None
      (OrderByDict [(''id'', PStr ''desc''), (''nope'', PStr ''asc''), (''text'', PInt 1)])
      None None
     = (Inl (KeyError ''Unknown order by column: nope''), [])
 \<and> (\<exists>stmt. query no_filters echo_exec no_vec_str docs_table None (OrderByStr ''id'') None None
             = (Inr (echo_exec stmt), [stmt]) \<and> sel_order_by stmt = [OrderCol ''id''])
 \<and> fst (query no_filters echo_exec no_vec_str docs_table None
           (OrderByDict [(''id'', PStr ''up'')]) None None)
     \<noteq> Inl (KeyError ''Unknown order by column: id'')
 \<and> (\<exists>stmt. query no_filters echo_exec no_vec_str docs_table None
             (OrderByDict [(''id'', PStr ''desc''), (''text'', PStr ''asc'')]) None None
             = (Inr (echo_exec stmt), [stmt])
           \<and> sel_order_by stmt = [OrderColDesc ''id'', OrderCol ''text''])"
proof -
  note t = query_order_by_unknown_column
      [where bfc = no_filters and tbl = docs_table and filters = None and exec = echo_exec
         and vs = no_vec_str and limit = None and offset = None, OF docs_filters_compile]
  have a: "query no_filters echo_exec no_vec_str docs_table None (OrderByStr ''nope'') None None
     = (Inl (KeyError ''Unknown order by column: nope''), [])"
    using t [where n = "''nope''" and entries = "[]" and pre = "[]" and k = "''nope''"
        and v = "PStr ''up''" and post = "[]" and m = "[]"]
    by (simp add: docs_table_columns)
  have b: "query no_filters echo_exec no_vec_str docs_table None
      (OrderByDict [(''id'', PStr ''desc''), (''nope'', PStr ''asc''), (''none'', PStr ''asc'')])
      None None
     = (Inl (KeyError ''Unknown order by column: nope''), [])"
    using t [where n = "''nope''"
        and entries = "[(''id'', PStr ''desc''), (''nope'', PStr ''asc''), (''none'', PStr ''asc'')]"
        and pre = "[]" and k = "''nope''" and v = "PStr ''up''" and post = "[]" and m = "[]"]
    by (simp add: docs_table_columns is_direction_def)
  have c: "query no_filters echo_exec no_vec_str docs_table None
      (OrderByDict [(''id'', PStr ''desc''), (''nope'', PStr ''asc''), (''text'', PInt 1)])
      None None
     = (Inl (KeyError ''Unknown order by column: nope''), [])"
    using t [where n = "''nope''" and entries = "[]" and pre = "[(''id'', PStr ''desc'')]"
        and k = "''nope''" and v = "PStr ''asc''" and post = "[(''text'', PInt 1)]" and m = "[]"]
    by (simp add: docs_table_columns valid_entry_def)
  have d: "\<exists>stmt. query no_filters echo_exec no_vec_str docs_table None (OrderByStr ''id'')
             None None
             = (Inr (echo_exec stmt), [stmt]) \<and> sel_order_by stmt = [OrderCol ''id'']"
    using t [where n = "''id''" and entries = "[]" and pre = "[]" and k = "''nope''"
        and v = "PStr ''up''" and post = "[]" and m = "[]"]
    by (simp add: docs_table_columns)
  have e: "fst (query no_filters echo_exec no_vec_str docs_table None
           (OrderByDict [(''id'', PStr ''up'')]) None None)
     \<noteq> Inl (KeyError ''Unknown order by column: id'')"
    using t [where n = "''id''" and entries = "[(''id'', PStr ''up'')]" and pre = "[]"
        and k = "''nope''" and v = "PStr ''up''" and post = "[]"
        and m = "''Unknown order by column: id''"]
    by (simp add: docs_table_columns)
  have f: "\<exists>stmt. query no_filters echo_exec no_vec_str docs_table None
             (OrderByDict [(''id'', PStr ''desc''), (''text'', PStr ''asc'')]) None None
             = (Inr (echo_exec stmt), [stmt])
           \<and> sel_order_by stmt = [OrderColDesc ''id'', OrderCol ''text'']"
    using t [where n = "''id''" and entries = "[(''id'', PStr ''desc''), (''text'', PStr ''asc'')]"
        and pre = "[]" and k = "''nope''" and v = "PStr ''up''" and post = "[]" and m = "[]"]
    by (simp add: docs_table_columns is_direction_def entry_term_def)
  from a b c d e f show ?thesis by blast
qed

text \<open>
  On the example table: the direction \<open>1\<close> after a valid entry, and a valid dictionary.
\<close>

theorem query_order_by_invalid_direction_witness:
  "query no_filters echo_exec no_vec_str docs_table None
      (OrderByDict [(''id'', PStr ''desc''), (''text'', PInt 1), (''nope'', PStr ''asc'')])
      None None
     = (Inl (ValueError (''Invalid order direction value (allowed: '' @ quoted ''desc''
                            @ '', '' @ quoted ''asc'' @ ''): 1'')), [])
 \<and> (\<exists>stmt. query no_filters echo_exec no_vec_str docs_table None
             (OrderByDict [(''text'', PStr ''asc''), (''id'', PStr ''desc'')]) None None
             = (Inr (echo_exec stmt), [stmt])
           \<and> sel_order_by stmt = [OrderCol ''text'', OrderColDesc ''id''])"
  using
    query_order_by_invalid_direction
      [where bfc = no_filters and tbl = docs_table and filters = None and exec = echo_exec
         and vs = no_vec_str and limit = None and offset = None
         and pre = "[(''id'', PStr ''desc'')]" and k = "''text''"
         and v = "PInt 1" and post = "[(''nope'', PStr ''asc'')]"
         and entries = "[(''text'', PStr ''asc''), (''id'', PStr ''desc'')]",
       OF docs_filters_compile]
  by (simp add: docs_table_columns valid_entry_def entry_term_def py_str_def int_str_def
      digit_char_def)

section \<open>Dictionaries and configurations\<close>

lemma map_of_dict_set: "map_of (dict_set d k v) k' = (if k' = k then Some v else map_of d k')"
  by (induction d) auto

lemma dict_keys_dict_set:
  "dict_keys (dict_set d k v) =
     (if k \<in> set (dict_keys d) then dict_keys d else dict_keys d @ [k])"
  by (induction d) (force simp: dict_keys_def)+

lemma keys_dict_set: "set (dict_keys (dict_set d k v)) = insert k (set (dict_keys d))"
  by (auto simp: dict_keys_dict_set)

lemma map_of_None_keys: "map_of d k = None \<longleftrightarrow> k \<notin> set (dict_keys d)"
  by (simp add: dict_keys_def map_of_eq_None_iff)

lemma distinct_dict_set: "distinct (dict_keys d) \<Longrightarrow> distinct (dict_keys (dict_set d k v))"
  by (simp add: dict_keys_dict_set)

lemma list_all_dict_set: "list_all P d \<Longrightarrow> P (k, v) \<Longrightarrow> list_all P (dict_set d k v)"
  by (induction d) auto

lemma wf_configs_dict_set:
  "wf_configs configs \<Longrightarrow> cfg_embed_fn c \<noteq> None \<Longrightarrow> wf_configs (dict_set configs k c)"
  by (simp add: wf_configs_def distinct_dict_set list_all_dict_set has_embed_fn_def)

lemma wf_configs_setup:
  "wf_configs configs \<Longrightarrow> wf_configs (setup_auto_embedding fs configs)"
proof (induction fs arbitrary: configs)
  case Nil
  then show ?case by simp
next
  case (Cons nf fs)
  obtain n f where nf: "nf = (n, f)" by (cases nf)
  show ?case
    using Cons.prems nf
    by (auto split: option.splits intro!: Cons.IH wf_configs_dict_set)
qed

lemma wf_configs_Nil: "wf_configs []"
  by (simp add: wf_configs_def dict_keys_def)


section \<open>Properties of \<open>update\<close>\<close>

lemma update_embed_frame:
  "list_all has_embed_fn configs \<Longrightarrow>
   \<exists>vals' new. update_embed configs vals evs = Inr (vals', evs @ new)
     \<and> (\<forall>k \<in> set (dict_keys vals). map_of vals' k = map_of vals k)
     \<and> set (dict_keys vals) \<subseteq> set (dict_keys vals')
     \<and> (\<forall>e \<in> set new. event_field e \<notin> set (dict_keys vals))"
proof (induction configs arbitrary: vals evs)
  case Nil
  then show ?case by simp
next
  case (Cons fc configs)
  obtain f c where fc: "fc = (f, c)" by (cases fc)
  from Cons.prems have h: "has_embed_fn fc" and rest: "list_all has_embed_fn configs"
    by simp_all
  from h fc obtain fn where fn: "cfg_embed_fn c = Some fn"
    by (auto simp: has_embed_fn_def)
  show ?case
  proof (cases "f \<in> set (dict_keys vals) \<or> map_of vals (cfg_source_field_name c) = None")
    case True
    then have "update_embed (fc # configs) vals evs = update_embed configs vals evs"
      using fc by auto
    with Cons.IH [OF rest, of vals evs] show ?thesis by simp
  next
    case False
    then obtain src where f: "f \<notin> set (dict_keys vals)"
      and src: "map_of vals (cfg_source_field_name c) = Some src"
      by auto
    let ?vals1 = "dict_set vals f (get_source_embedding fn src)"
    let ?evs1 = "evs @ [EmbedOne f src]"
    have step: "update_embed (fc # configs) vals evs = update_embed configs ?vals1 ?evs1"
      using fc f src fn by simp
    from Cons.IH [OF rest, of ?vals1 ?evs1]
    obtain vals' new where r: "update_embed configs ?vals1 ?evs1 = Inr (vals', ?evs1 @ new)"
      and m: "\<forall>k \<in> set (dict_keys ?vals1). map_of vals' k = map_of ?vals1 k"
      and s: "set (dict_keys ?vals1) \<subseteq> set (dict_keys vals')"
      and e: "\<forall>e \<in> set new. event_field e \<notin> set (dict_keys ?vals1)"
      by blast
    have "update_embed (fc # configs) vals evs = Inr (vals', evs @ (EmbedOne f src # new))"
      using step r by simp
    moreover have "\<forall>k \<in> set (dict_keys vals). map_of vals' k = map_of vals k"
      using m f by (auto simp: keys_dict_set map_of_dict_set)
    moreover have "set (dict_keys vals) \<subseteq> set (dict_keys vals')"
      using s by (auto simp: keys_dict_set)
    moreover have "\<forall>e \<in> set (EmbedOne f src # new). event_field e \<notin> set (dict_keys vals)"
      using e f by (auto simp: keys_dict_set)
    ultimately show ?thesis by blast
  qed
qed

lemma update_embed_present:
  assumes "list_all has_embed_fn configs" and "V \<in> set (dict_keys vals)"
  shows "\<exists>vals' new. update_embed configs vals evs = Inr (vals', evs @ new)
     \<and> map_of vals' V = map_of vals V \<and> events_of V new = []"
proof -
  from update_embed_frame [OF assms(1), of vals evs]
  obtain vals' new where r: "update_embed configs vals evs = Inr (vals', evs @ new)"
    and m: "\<forall>k \<in> set (dict_keys vals). map_of vals' k = map_of vals k"
    and e: "\<forall>e \<in> set new. event_field e \<notin> set (dict_keys vals)"
    by blast
  from e assms(2) have "events_of V new = []"
    by (auto simp: events_of_def filter_empty_conv)
  with r m assms(2) show ?thesis by blast
qed

lemma update_embed_inject:
  assumes "wf_configs configs" and "(V, cfg) \<in> set configs"
    and "cfg_embed_fn cfg = Some fn"
    and "V \<notin> set (dict_keys vals)"
    and "map_of vals (cfg_source_field_name cfg) = Some src"
  shows "\<exists>vals' new. update_embed configs vals evs = Inr (vals', evs @ new)
     \<and> map_of vals' V = Some (get_source_embedding fn src)
     \<and> events_of V new = [EmbedOne V src]
     \<and> (\<forall>k \<in> set (dict_keys vals). map_of vals' k = map_of vals k)"
  using assms
proof (induction configs arbitrary: vals evs)
  case Nil
  then show ?case by simp
next
  case (Cons fc configs)
  obtain f c where fc: "fc = (f, c)" by (cases fc)
  from Cons.prems(1) fc have dist: "f \<notin> set (dict_keys configs)"
    and wf: "wf_configs configs" and all: "list_all has_embed_fn configs"
    and h: "has_embed_fn (f, c)"
    by (simp_all add: wf_configs_def dict_keys_def)
  from h have cfn: "cfg_embed_fn c \<noteq> None" by (simp add: has_embed_fn_def)
  show ?case
  proof (cases "f = V")
    case True
    with Cons.prems(2) fc dist have c: "c = cfg"
      by (auto simp: dict_keys_def rev_image_eqI)
    let ?vals1 = "dict_set vals V (get_source_embedding fn src)"
    let ?evs1 = "evs @ [EmbedOne V src]"
    have step: "update_embed (fc # configs) vals evs = update_embed configs ?vals1 ?evs1"
      using fc True c Cons.prems(3,4,5) by simp
    have V1: "V \<in> set (dict_keys ?vals1)" by (simp add: keys_dict_set)
    from update_embed_frame [OF all, of ?vals1 ?evs1]
    obtain vals' new where r: "update_embed configs ?vals1 ?evs1 = Inr (vals', ?evs1 @ new)"
      and m: "\<forall>k \<in> set (dict_keys ?vals1). map_of vals' k = map_of ?vals1 k"
      and e: "\<forall>e \<in> set new. event_field e \<notin> set (dict_keys ?vals1)"
      by blast
    have "update_embed (fc # configs) vals evs = Inr (vals', evs @ (EmbedOne V src # new))"
      using step r by simp
    moreover have "map_of vals' V = Some (get_source_embedding fn src)"
      using m V1 by (simp add: map_of_dict_set)
    moreover have "events_of V (EmbedOne V src # new) = [EmbedOne V src]"
      using e V1 by (auto simp: events_of_def filter_empty_conv)
    moreover have "\<forall>k \<in> set (dict_keys vals). map_of vals' k = map_of vals k"
      using m Cons.prems(4) by (auto simp: keys_dict_set map_of_dict_set)
    ultimately show ?thesis by blast
  next
    case False
    with Cons.prems(2) fc have mem: "(V, cfg) \<in> set configs" by auto
    show ?thesis
    proof (cases "f \<in> set (dict_keys vals) \<or> map_of vals (cfg_source_field_name c) = None")
      case True
      then have "update_embed (fc # configs) vals evs = update_embed configs vals evs"
        using fc by auto
      with Cons.IH [OF wf mem Cons.prems(3,4,5), of evs] show ?thesis by simp
    next
      case skip: False
      then obtain s where f: "f \<notin> set (dict_keys vals)"
        and s: "map_of vals (cfg_source_field_name c) = Some s"
        by auto
      from cfn obtain g where g: "cfg_embed_fn c = Some g" by auto
      let ?vals1 = "dict_set vals f (get_source_embedding g s)"
      let ?evs1 = "evs @ [EmbedOne f s]"
      have step: "update_embed (fc # configs) vals evs = update_embed configs ?vals1 ?evs1"
        using fc f s g by simp
      have V1: "V \<notin> set (dict_keys ?vals1)"
        using False Cons.prems(4) by (simp add: keys_dict_set)
      have "cfg_source_field_name cfg \<noteq> f"
        using f Cons.prems(5) by (auto simp: map_of_None_keys [symmetric])
      then have S1: "map_of ?vals1 (cfg_source_field_name cfg) = Some src"
        using Cons.prems(5) by (simp add: map_of_dict_set)
      from Cons.IH [OF wf mem Cons.prems(3) V1 S1, of ?evs1]
      obtain vals' new where r: "update_embed configs ?vals1 ?evs1 = Inr (vals', ?evs1 @ new)"
        and v: "map_of vals' V = Some (get_source_embedding fn src)"
        and e: "events_of V new = [EmbedOne V src]"
        and m: "\<forall>k \<in> set (dict_keys ?vals1). map_of vals' k = map_of ?vals1 k"
        by blast
      have "update_embed (fc # configs) vals evs = Inr (vals', evs @ (EmbedOne f s # new))"
        using step r by simp
      moreover have "events_of V (EmbedOne f s # new) = [EmbedOne V src]"
        using e False by (simp add: events_of_def)
      moreover have "\<forall>k \<in> set (dict_keys vals). map_of vals' k = map_of vals k"
        using m f by (auto simp: keys_dict_set map_of_dict_set)
      ultimately show ?thesis using v by blast
    qed
  qed
qed


text \<open>
  C7, as the code has it. For a table whose configurations are as the constructor leaves
  them, a configuration of the vector field \<open>V\<close> with embedding function \<open>fn\<close>, and
  filters that compile, \<open>update\<close> succeeds, and:
  \<^item> it returns \<open>None\<close>: the outcome of the session's \<open>execute\<close> is dropped;
  \<^item> it executes one statement, the filtered update with the payload as the call leaves
    it;
  \<^item> every key of the payload keeps its value;
  \<^item> if the payload has the source field of the configuration and not \<open>V\<close>, the payload
    gets \<open>V\<close> with the embedding of the source value that was supplied, and the embedding
    function of \<open>V\<close> is called once, on that value;
  \<^item> if the payload has \<open>V\<close>, no embedding is computed for \<open>V\<close>.
\<close>

theorem update_auto_embedding:
  fixes bfc :: "'f option \<Rightarrow> column list \<Rightarrow> 'a schema \<Rightarrow> py_error + 'c list"
  assumes "t_auto_embedding_configs tbl = Some configs" and "wf_configs configs"
    and "(V, cfg) \<in> set configs" and "cfg_embed_fn cfg = Some fn"
    and "bfc filters (t_columns tbl) (t_table_model tbl) = Inr clauses"
  shows "\<exists>r :: ('a, 'c, 'o) update_result. update bfc tbl vals filters = Inr r
     \<and> upd_return r = None
     \<and> upd_executed r = [\<lparr> upd_table = tbl_name (t_sa_table tbl), upd_where = clauses,
                            upd_values = upd_payload r \<rparr>]
     \<and> (\<forall>k \<in> set (dict_keys vals). map_of (upd_payload r) k = map_of vals k)
     \<and> (V \<notin> set (dict_keys vals) \<longrightarrow>
          (\<forall>src. map_of vals (cfg_source_field_name cfg) = Some src \<longrightarrow>
             map_of (upd_payload r) V = Some (get_source_embedding fn src)
             \<and> events_of V (upd_events r) = [EmbedOne V src]))
     \<and> (V \<in> set (dict_keys vals) \<longrightarrow> events_of V (upd_events r) = [])"
proof -
  from assms(2) have all: "list_all has_embed_fn configs" by (simp add: wf_configs_def)
  from update_embed_frame [OF all, of vals "[]"]
  obtain vals' new where r: "update_embed configs vals [] = Inr (vals', new)"
    and m: "\<forall>k \<in> set (dict_keys vals). map_of vals' k = map_of vals k"
    by auto
  let ?r = "\<lparr> upd_return = (None :: 'o option), upd_payload = vals',
              upd_executed = [\<lparr> upd_table = tbl_name (t_sa_table tbl), upd_where = clauses,
                                 upd_values = vals' \<rparr>],
              upd_events = new \<rparr>"
  have u: "update bfc tbl vals filters = Inr ?r"
    using assms(1,5) r by (simp add: update_def)
  have inj: "V \<notin> set (dict_keys vals) \<longrightarrow>
          (\<forall>src. map_of vals (cfg_source_field_name cfg) = Some src \<longrightarrow>
             map_of vals' V = Some (get_source_embedding fn src)
             \<and> events_of V new = [EmbedOne V src])"
  proof (intro impI allI)
    fix src
    assume "V \<notin> set (dict_keys vals)" "map_of vals (cfg_source_field_name cfg) = Some src"
    from update_embed_inject [OF assms(2,3,4) this, of "[]"] r
    show "map_of vals' V = Some (get_source_embedding fn src)
             \<and> events_of V new = [EmbedOne V src]"
      by auto
  qed
  have pres: "V \<in> set (dict_keys vals) \<longrightarrow> events_of V new = []"
  proof
    assume "V \<in> set (dict_keys vals)"
    from update_embed_present [OF all this, of "[]"] r
    show "events_of V new = []" by auto
  qed
  from u m inj pres show ?thesis by simp
qed

lemma docs_configs: "t_auto_embedding_configs docs_table = Some [(''embedding'', docs_config)]"
  by (simp add: docs_table_def)

lemma docs_wf_configs: "wf_configs [(''embedding'', docs_config)]"
  by (simp add: wf_configs_def dict_keys_def has_embed_fn_def docs_config_def)

lemma docs_config_fn: "cfg_embed_fn docs_config = Some len_embed"
  by (simp add: docs_config_def)

lemma docs_config_source: "cfg_source_field_name docs_config = ''text''"
  by (simp add: docs_config_def)

lemma docs_no_filters:
  "no_filters None (t_columns docs_table) (t_table_model docs_table) = Inr []"
  by (simp add: no_filters_def)

text \<open>
  C7 as it was stated has \<open>update\<close> return the outcome of the execution. On the example
  table, \<open>update({"text": "hello"})\<close> executes the statement with the embedding injected
  and returns \<open>None\<close>.
\<close>

theorem update_auto_embedding_counterexample:
  "update no_filters docs_table [(''text'', PStr ''hello'')] None
   = Inr \<lparr> upd_return = (None :: nat option),
           upd_payload = [(''text'', PStr ''hello''), (''embedding'', PVec 5)],
           upd_executed =
             [\<lparr> upd_table = ''docs'', upd_where = [],
                upd_values = [(''text'', PStr ''hello''), (''embedding'', PVec 5)] \<rparr>],
           upd_events = [EmbedOne ''embedding'' (PStr ''hello'')] \<rparr>"
  by (simp add: update_def docs_configs docs_config_fn docs_config_source dict_keys_def
      no_filters_def len_embed_def len_vec_def docs_table_def docs_indexed_def docs_sa_table_def)

text \<open>
  On the example table: a payload with the source and without the vector field, and a
  payload that brings its own vector.
\<close>

theorem update_auto_embedding_witness:
  "(\<exists>r :: (nat, unit, nat) update_result.
      update no_filters docs_table [(''text'', PStr ''hello'')] None = Inr r
    \<and> upd_return r = None
    \<and> map_of (upd_payload r) ''text'' = Some (PStr ''hello'')
    \<and> map_of (upd_payload r) ''embedding'' = Some (PVec 5)
    \<and> events_of ''embedding'' (upd_events r) = [EmbedOne ''embedding'' (PStr ''hello'')])
 \<and> (\<exists>r :: (nat, unit, nat) update_result.
      update no_filters docs_table [(''text'', PStr ''hello''), (''embedding'', PVec 9)] None
        = Inr r
    \<and> upd_return r = None
    \<and> map_of (upd_payload r) ''embedding'' = Some (PVec 9)
    \<and> events_of ''embedding'' (upd_events r) = [])"
proof -
  have mem: "(''embedding'', docs_config) \<in> set [(''embedding'', docs_config)]" by simp
  note t = update_auto_embedding
      [where 'o = nat and bfc = no_filters and tbl = docs_table and filters = None
         and configs = "[(''embedding'', docs_config)]" and V = "''embedding''"
         and cfg = docs_config and fn = len_embed and clauses = "[]",
       OF docs_configs docs_wf_configs mem docs_config_fn docs_no_filters]
  from t [of "[(''text'', PStr ''hello'')]"]
    t [of "[(''text'', PStr ''hello''), (''embedding'', PVec 9)]"]
  show ?thesis
    by (auto simp: dict_keys_def docs_config_source len_embed_def len_vec_def
        eval_nat_numeral)
qed

section \<open>The example tables are what the constructor builds\<close>

lemma lower_VECTOR: "lower ''VECTOR'' = ''vector''"
  by (simp add: lower_def lower_char_def)

lemma lower_FULLTEXT: "lower ''FULLTEXT'' = ''fulltext''"
  by (simp add: lower_def lower_char_def)

lemma lower_COSINE: "lower ''COSINE'' = ''cosine''"
  by (simp add: lower_def lower_char_def)

lemma Table_init_notes:
  "Table_init example_fde engine_ok notes_schema None None True []
     = (Inr notes_table, [CreateAll ''notes'' True])"
  by (simp add: Table_init_def Let_def notes_schema_def setup_from_fields_def plain_field_def
      notes_summary_field_def notes_meta_field_def notes_sa_table_def notes_columns_def
      engine_ok_def default_vector_column_def default_text_column_def
      filter_vector_columns_def filter_text_columns_def notes_table_def
      notes_summary_config_def notes_meta_config_def get_skip_index_def)

lemma Table_init_docs:
  "Table_init example_fde engine_ok docs_schema None None True []
     = (Inr docs_table, [CreateAll ''docs'' True])"
  by (simp add: Table_init_def Let_def docs_schema_def setup_from_fields_def plain_field_def
      docs_text_field_def docs_embedding_field_def docs_sa_table_def docs_columns_def
      engine_ok_def default_vector_column_def default_text_column_def
      filter_vector_columns_def filter_text_columns_def docs_table_def docs_indexed_def
      docs_config_def append_constraint_def VectorIndex_def FullTextIndex_def
      get_index_type_def lower_VECTOR lower_FULLTEXT lower_COSINE vec_idx_name_def
      fts_idx_name_def example_fde_def first_expression_text_def first_column_name_def
      get_skip_index_def get_distance_metric_def get_algorithm_def get_fts_parser_def)


section \<open>Properties of \<open>insert\<close>\<close>

lemma insert_embed_append:
  "insert_embed (xs @ ys) data =
     (case insert_embed xs data of Inl e \<Rightarrow> Inl e | Inr d \<Rightarrow> insert_embed ys d)"
proof (induction xs arbitrary: data)
  case Nil
  then show ?case by simp
next
  case (Cons fc xs)
  obtain f c where fc: "fc = (f, c)" by (cases fc)
  show ?case using fc
    by (simp add: Cons.IH split: option.splits) (simp add: fun_upd_def)
qed

lemma insert_embed_frame:
  "list_all has_embed_fn configs \<Longrightarrow> set (dict_keys configs) \<subseteq> dom data \<Longrightarrow>
   \<exists>data'. insert_embed configs data = Inr data'
     \<and> dom data' = dom data
     \<and> (\<forall>k. k \<notin> set (dict_keys configs) \<longrightarrow> data' k = data k)
     \<and> (\<forall>k. data k \<noteq> Some PNone \<longrightarrow> data' k = data k)"
proof (induction configs arbitrary: data)
  case Nil
  then show ?case by simp
next
  case (Cons fc configs)
  obtain f c where fc: "fc = (f, c)" by (cases fc)
  from Cons.prems(1) have h: "has_embed_fn fc" and rest: "list_all has_embed_fn configs"
    by simp_all
  from h fc obtain fn where fn: "cfg_embed_fn c = Some fn"
    by (auto simp: has_embed_fn_def)
  from Cons.prems(2) fc have fdom: "f \<in> dom data"
    and keys: "set (dict_keys configs) \<subseteq> dom data"
    by (simp_all add: dict_keys_def)
  then obtain v where v: "data f = Some v" by auto
  show ?case
  proof (cases "v \<noteq> PNone \<or> data (cfg_source_field_name c) = None")
    case True
    then have "insert_embed (fc # configs) data = insert_embed configs data"
      using fc v by auto
    with Cons.IH [OF rest keys] show ?thesis
      by (auto simp: dict_keys_def fc)
  next
    case False
    then obtain src where null: "v = PNone"
      and src: "data (cfg_source_field_name c) = Some src"
      by auto
    let ?d1 = "data(f \<mapsto> get_source_embedding fn src)"
    have step: "insert_embed (fc # configs) data = insert_embed configs ?d1"
      using fc v null src fn by simp
    have keys1: "set (dict_keys configs) \<subseteq> dom ?d1" using keys by auto
    from Cons.IH [OF rest keys1]
    obtain data' where r: "insert_embed configs ?d1 = Inr data'"
      and d: "dom data' = dom ?d1"
      and o: "\<forall>k. k \<notin> set (dict_keys configs) \<longrightarrow> data' k = ?d1 k"
      and n: "\<forall>k. ?d1 k \<noteq> Some PNone \<longrightarrow> data' k = ?d1 k"
      by blast
    have "insert_embed (fc # configs) data = Inr data'" using step r by simp
    moreover have "dom data' = dom data" using d fdom by auto
    moreover have "\<forall>k. k \<notin> set (dict_keys (fc # configs)) \<longrightarrow> data' k = data k"
      using o fc by (simp add: dict_keys_def)
    moreover have "\<forall>k. data k \<noteq> Some PNone \<longrightarrow> data' k = data k"
    proof (intro allI impI)
      fix k assume "data k \<noteq> Some PNone"
      with v null have "k \<noteq> f" by auto
      with \<open>data k \<noteq> Some PNone\<close> n show "data' k = data k" by simp
    qed
    ultimately show ?thesis by blast
  qed
qed

lemma wf_configs_split:
  assumes "wf_configs (pre @ (V, cfg) # post)"
  shows "list_all has_embed_fn pre" "list_all has_embed_fn post"
    "V \<notin> set (dict_keys pre)" "V \<notin> set (dict_keys post)"
  using assms by (simp_all add: wf_configs_def dict_keys_def)

text \<open>
  C1, as the code has it. The configurations are applied one after the other, each to the
  record as the ones before it have left it. For a table whose configurations are as the
  constructor leaves them, a configuration of the vector field \<open>V\<close> with embedding
  function \<open>fn\<close> and source field \<open>S\<close>, and a record that has every configured vector
  field as an attribute (an instance of the table's model), \<open>insert\<close> applies the
  configurations and hands the record to the session; with \<open>mid\<close> the record as the
  configurations before that of \<open>V\<close> leave it:
  \<^item> if the record's \<open>V\<close> is not null, the record is persisted with \<open>V\<close> unchanged,
    whatever \<open>S\<close> is;
  \<^item> if \<open>V\<close> is null and the record has \<open>S\<close>, the record is persisted with \<open>V\<close> set to
    the embedding of the value \<open>S\<close> has in \<open>mid\<close>;
  \<^item> that value is the one the caller supplied unless \<open>S\<close> is itself the vector field
    of an earlier configuration and was null.
\<close>

theorem insert_auto_embedding:
  assumes "t_auto_embedding_configs tbl = Some (pre @ (V, cfg) # post)"
    and "wf_configs (pre @ (V, cfg) # post)"
    and "cfg_embed_fn cfg = Some fn"
    and "set (dict_keys (pre @ (V, cfg) # post)) \<subseteq> dom data"
  shows "\<exists>mid r. insert_embed pre data = Inr mid
     \<and> insert_one refresh tbl data = Inr r
     \<and> ins_returned r = refresh (ins_persisted r)
     \<and> (data V \<noteq> Some PNone \<longrightarrow> ins_persisted r V = data V)
     \<and> (data V = Some PNone \<and> cfg_source_field_name cfg \<in> dom data \<longrightarrow>
          ins_persisted r V =
            Some (get_source_embedding fn (the (mid (cfg_source_field_name cfg)))))
     \<and> (cfg_source_field_name cfg \<notin> set (dict_keys pre)
          \<or> data (cfg_source_field_name cfg) \<noteq> Some PNone \<longrightarrow>
          mid (cfg_source_field_name cfg) = data (cfg_source_field_name cfg))"
proof -
  let ?S = "cfg_source_field_name cfg"
  note wf = wf_configs_split [OF assms(2)]
  from assms(4) have kpre: "set (dict_keys pre) \<subseteq> dom data"
    and Vdom: "V \<in> dom data" and kpost: "set (dict_keys post) \<subseteq> dom data"
    by (simp_all add: dict_keys_def)
  from insert_embed_frame [OF wf(1) kpre]
  obtain mid where mid: "insert_embed pre data = Inr mid"
    and dmid: "dom mid = dom data"
    and omid: "\<forall>k. k \<notin> set (dict_keys pre) \<longrightarrow> mid k = data k"
    and nmid: "\<forall>k. data k \<noteq> Some PNone \<longrightarrow> mid k = data k"
    by blast
  have midV: "mid V = data V" using omid wf(3) by simp
  define d1 where "d1 =
    (if data V = Some PNone \<and> ?S \<in> dom data
     then mid(V \<mapsto> get_source_embedding fn (the (mid ?S))) else mid)"
  have step: "insert_embed ((V, cfg) # post) mid = insert_embed post d1"
  proof (cases "data V = Some PNone \<and> ?S \<in> dom data")
    case True
    then obtain src where "mid ?S = Some src" using dmid by auto
    with True midV assms(3) show ?thesis by (simp add: d1_def)
  next
    case False
    from Vdom obtain v where v: "data V = Some v" by auto
    with False midV dmid show ?thesis
      by (cases "mid ?S") (auto simp: d1_def)
  qed
  have kpost1: "set (dict_keys post) \<subseteq> dom d1"
    using kpost dmid by (auto simp: d1_def)
  from insert_embed_frame [OF wf(2) kpost1]
  obtain fin where fin: "insert_embed post d1 = Inr fin"
    and ofin: "\<forall>k. k \<notin> set (dict_keys post) \<longrightarrow> fin k = d1 k"
    by blast
  have finV: "fin V = d1 V" using ofin wf(4) by simp
  have whole: "insert_embed (pre @ (V, cfg) # post) data = Inr fin"
    using mid step fin by (simp add: insert_embed_append)
  let ?r = "\<lparr> ins_persisted = fin, ins_returned = refresh fin \<rparr>"
  have r: "insert_one refresh tbl data = Inr ?r"
    using assms(1) whole by (simp add: insert_one_def)
  have a: "data V \<noteq> Some PNone \<longrightarrow> fin V = data V"
    using finV midV by (simp add: d1_def)
  have b: "data V = Some PNone \<and> ?S \<in> dom data \<longrightarrow>
          fin V = Some (get_source_embedding fn (the (mid ?S)))"
    using finV by (simp add: d1_def)
  have c: "?S \<notin> set (dict_keys pre) \<or> data ?S \<noteq> Some PNone \<longrightarrow> mid ?S = data ?S"
    using omid nmid by blast
  from mid r a b c show ?thesis by simp
qed


text \<open>
  C1 as it was stated takes the value of \<open>S\<close> from the record that was passed. On the
  table \<open>notes\<close>, for the configuration of \<open>meta_vec\<close> sourced from \<open>summary_vec\<close>: the
  record has \<open>meta_vec\<close> null and \<open>summary_vec\<close> present (and null), the embedding of that
  value is the vector 0, and the record is persisted with \<open>meta_vec\<close> the vector 6, the
  embedding of the \<open>summary_vec\<close> that the first configuration has just computed.
\<close>

theorem insert_auto_embedding_counterexample:
  "notes_record ''meta_vec'' = Some PNone
 \<and> notes_record ''summary_vec'' = Some PNone
 \<and> get_source_embedding succ_embed PNone = PVec 0
 \<and> (case insert_one (\<lambda>d. d) notes_table notes_record of
       Inl e \<Rightarrow> None | Inr r \<Rightarrow> ins_persisted r ''meta_vec'') = Some (PVec 6)"
  by (simp add: notes_record_def insert_one_def notes_table_def notes_summary_config_def
      notes_meta_config_def succ_embed_def succ_vec_def len_embed_def len_vec_def)

text \<open>
  On the example table: a record without a vector gets the embedding of its text, a
  record that brings a vector keeps it. On the table \<open>notes\<close>: \<open>summary_vec\<close> gets the
  embedding of the text, and \<open>meta_vec\<close> the embedding of that \<open>summary_vec\<close>.
\<close>

theorem insert_auto_embedding_witness:
  "(\<exists>r. insert_one (\<lambda>d. d) docs_table
           (map_of [(''id'', PInt 1), (''text'', PStr ''hello''), (''embedding'', PNone)])
         = Inr r
       \<and> ins_persisted r ''embedding'' = Some (PVec 5))
 \<and> (\<exists>r. insert_one (\<lambda>d. d) docs_table
           (map_of [(''id'', PInt 1), (''text'', PStr ''hello''), (''embedding'', PVec 9)])
         = Inr r
       \<and> ins_persisted r ''embedding'' = Some (PVec 9))
 \<and> (\<exists>r. insert_one (\<lambda>d. d) notes_table notes_record = Inr r
       \<and> ins_persisted r ''summary_vec'' = Some (PVec 5)
       \<and> ins_persisted r ''meta_vec'' = Some (PVec 6))"
proof -
  have cfgs: "t_auto_embedding_configs docs_table = Some ([] @ (''embedding'', docs_config) # [])"
    by (simp add: docs_configs)
  have wf: "wf_configs ([] @ (''embedding'', docs_config) # [])"
    by (simp add: docs_wf_configs)
  note t = insert_auto_embedding [where refresh = "\<lambda>d. d", OF cfgs wf docs_config_fn]
  from t [of "map_of [(''id'', PInt 1), (''text'', PStr ''hello''), (''embedding'', PNone)]"]
    t [of "map_of [(''id'', PInt 1), (''text'', PStr ''hello''), (''embedding'', PVec 9)]"]
  have docs: "(\<exists>r. insert_one (\<lambda>d. d) docs_table
           (map_of [(''id'', PInt 1), (''text'', PStr ''hello''), (''embedding'', PNone)])
         = Inr r
       \<and> ins_persisted r ''embedding'' = Some (PVec 5))
   \<and> (\<exists>r. insert_one (\<lambda>d. d) docs_table
           (map_of [(''id'', PInt 1), (''text'', PStr ''hello''), (''embedding'', PVec 9)])
         = Inr r
       \<and> ins_persisted r ''embedding'' = Some (PVec 9))"
    by (auto simp: dict_keys_def docs_config_source len_embed_def len_vec_def
        eval_nat_numeral)
  have ncfgs: "t_auto_embedding_configs notes_table
      = Some ([(''summary_vec'', notes_summary_config)] @ (''meta_vec'', notes_meta_config) # [])"
    by (simp add: notes_table_def)
  have ncfgs0: "t_auto_embedding_configs notes_table
      = Some ([] @ (''summary_vec'', notes_summary_config) # [(''meta_vec'', notes_meta_config)])"
    by (simp add: notes_table_def)
  have nwf: "wf_configs ([(''summary_vec'', notes_summary_config)]
      @ (''meta_vec'', notes_meta_config) # [])"
    by (simp add: wf_configs_def dict_keys_def has_embed_fn_def notes_summary_config_def
        notes_meta_config_def)
  have nwf0: "wf_configs ([] @ (''summary_vec'', notes_summary_config)
      # [(''meta_vec'', notes_meta_config)])"
    using nwf by simp
  have fn: "cfg_embed_fn notes_meta_config = Some succ_embed"
    by (simp add: notes_meta_config_def)
  have fn0: "cfg_embed_fn notes_summary_config = Some len_embed"
    by (simp add: notes_summary_config_def)
  have typed: "set (dict_keys ([(''summary_vec'', notes_summary_config)]
      @ (''meta_vec'', notes_meta_config) # [])) \<subseteq> dom notes_record"
    by (simp add: dict_keys_def notes_record_def)
  have typed0: "set (dict_keys ([] @ (''summary_vec'', notes_summary_config)
      # [(''meta_vec'', notes_meta_config)])) \<subseteq> dom notes_record"
    using typed by simp
  from insert_auto_embedding [OF ncfgs nwf fn typed, of "\<lambda>d. d"]
    insert_auto_embedding [OF ncfgs0 nwf0 fn0 typed0, of "\<lambda>d. d"]
  have chain: "\<exists>r. insert_one (\<lambda>d. d) notes_table notes_record = Inr r
       \<and> ins_persisted r ''summary_vec'' = Some (PVec 5)
       \<and> ins_persisted r ''meta_vec'' = Some (PVec 6)"
    by (auto simp: notes_record_def notes_summary_config_def notes_meta_config_def
        len_embed_def len_vec_def succ_embed_def succ_vec_def eval_nat_numeral)
  from docs chain show ?thesis by blast
qed

section \<open>Properties of \<open>bulk_insert\<close>\<close>

lemma collect_items_filter:
  "\<forall>a \<in> set data. V \<in> dom (st a) \<Longrightarrow>
     collect_items V S st data =
       Inr (filter (needs_embedding V S st) data,
            map (\<lambda>a. the (st a S)) (filter (needs_embedding V S st) data))"
proof (induction data)
  case Nil
  then show ?case by simp
next
  case (Cons a data)
  then obtain v where v: "st a V = Some v" by auto
  from Cons have IH: "collect_items V S st data =
       Inr (filter (needs_embedding V S st) data,
            map (\<lambda>a. the (st a S)) (filter (needs_embedding V S st) data))"
    by simp
  have n: "needs_embedding V S st a \<longleftrightarrow> v = PNone \<and> st a S \<noteq> None"
    using v by (simp add: needs_embedding_def)
  show ?case
  proof (cases "v = PNone")
    case True
    show ?thesis
    proof (cases "st a S")
      case None
      with True v IH n show ?thesis by simp
    next
      case (Some src)
      with True v IH n show ?thesis by simp
    qed
  next
    case False
    with v IH n show ?thesis by simp
  qed
qed

lemma assign_all_Cons:
  "assign_all V ((i, e) # pairs) st = assign_all V pairs (st(i := (st i)(V \<mapsto> e)))"
  by simp

lemma assign_all_other_field: "k \<noteq> V \<Longrightarrow> assign_all V pairs st a k = st a k"
proof (induction pairs arbitrary: st)
  case Nil
  then show ?case by simp
next
  case (Cons p pairs)
  obtain i e where p: "p = (i, e)" by (cases p)
  have "assign_all V (p # pairs) st a k = (st(i := (st i)(V \<mapsto> e))) a k"
    unfolding p assign_all_Cons by (rule Cons.IH [OF Cons.prems])
  also have "\<dots> = st a k" using Cons.prems by simp
  finally show ?case .
qed

lemma assign_all_other_item: "a \<notin> fst ` set pairs \<Longrightarrow> assign_all V pairs st a = st a"
proof (induction pairs arbitrary: st)
  case Nil
  then show ?case by simp
next
  case (Cons p pairs)
  obtain i e where p: "p = (i, e)" by (cases p)
  from Cons.prems p have ai: "a \<noteq> i" and rest: "a \<notin> fst ` set pairs" by auto
  have "assign_all V (p # pairs) st a = (st(i := (st i)(V \<mapsto> e))) a"
    unfolding p assign_all_Cons by (rule Cons.IH [OF rest])
  also have "\<dots> = st a" using ai by simp
  finally show ?case .
qed

lemma assign_all_dom:
  "dom (assign_all V pairs st a) =
     (if a \<in> fst ` set pairs then insert V (dom (st a)) else dom (st a))"
proof (induction pairs arbitrary: st)
  case Nil
  then show ?case by simp
next
  case (Cons p pairs)
  obtain i e where p: "p = (i, e)" by (cases p)
  let ?st1 = "st(i := (st i)(V \<mapsto> e))"
  have "dom (assign_all V (p # pairs) st a) =
      (if a \<in> fst ` set pairs then insert V (dom (?st1 a)) else dom (?st1 a))"
    unfolding p assign_all_Cons by (rule Cons.IH)
  also have "\<dots> = (if a \<in> fst ` set (p # pairs) then insert V (dom (st a)) else dom (st a))"
    using p by auto
  finally show ?case .
qed

lemma assign_all_distinct:
  "distinct (map fst pairs) \<Longrightarrow> (a, e) \<in> set pairs \<Longrightarrow> assign_all V pairs st a V = Some e"
proof (induction pairs arbitrary: st)
  case Nil
  then show ?case by simp
next
  case (Cons p pairs)
  obtain i x where p: "p = (i, x)" by (cases p)
  from Cons.prems(1) p have fresh: "i \<notin> fst ` set pairs" and dist: "distinct (map fst pairs)"
    by simp_all
  let ?st1 = "st(i := (st i)(V \<mapsto> x))"
  show ?case
  proof (cases "(a, e) \<in> set pairs")
    case True
    have "assign_all V (p # pairs) st a V = assign_all V pairs ?st1 a V"
      unfolding p assign_all_Cons ..
    also have "\<dots> = Some e" by (rule Cons.IH [OF dist True])
    finally show ?thesis .
  next
    case False
    with Cons.prems(2) p have ai: "a = i" and ex: "e = x" by auto
    have "assign_all V (p # pairs) st a V = ?st1 a V"
      unfolding p assign_all_Cons using fresh ai by (simp add: assign_all_other_item)
    also have "\<dots> = Some e" using ai ex by simp
    finally show ?thesis .
  qed
qed

lemma bulk_embed_append:
  "bulk_embed (xs @ ys) data st evs =
     (case bulk_embed xs data st evs of
        Inl e \<Rightarrow> Inl e
      | Inr (st1, evs1) \<Rightarrow> bulk_embed ys data st1 evs1)"
proof (induction xs arbitrary: st evs)
  case Nil
  then show ?case by simp
next
  case (Cons fc xs)
  obtain f c where fc: "fc = (f, c)" by (cases fc)
  show ?case using fc
    by (simp add: Cons.IH Let_def split: option.splits sum.splits prod.splits)
qed

lemma bulk_embed_frame:
  "\<forall>a \<in> set data. set (dict_keys configs) \<subseteq> dom (st a) \<Longrightarrow>
   \<exists>st' new. bulk_embed configs data st evs = Inr (st', evs @ new)
     \<and> (\<forall>a k. k \<notin> set (dict_keys configs) \<longrightarrow> st' a k = st a k)
     \<and> (\<forall>a. dom (st' a) = dom (st a))
     \<and> (\<forall>e \<in> set new. event_field e \<in> set (dict_keys configs))"
proof (induction configs arbitrary: st evs)
  case Nil
  then show ?case by simp
next
  case (Cons fc configs)
  obtain f c where fc: "fc = (f, c)" by (cases fc)
  from Cons.prems fc have fdom: "\<forall>a \<in> set data. f \<in> dom (st a)"
    and keys: "\<forall>a \<in> set data. set (dict_keys configs) \<subseteq> dom (st a)"
    by (simp_all add: dict_keys_def)
  show ?case
  proof (cases "cfg_embed_fn c")
    case None
    then have "bulk_embed (fc # configs) data st evs = bulk_embed configs data st evs"
      using fc by simp
    with Cons.IH [OF keys, of evs] show ?thesis
      by (auto simp: dict_keys_def fc)
  next
    case (Some fn)
    let ?S = "cfg_source_field_name c"
    let ?items = "filter (needs_embedding f ?S st) data"
    let ?srcs = "map (\<lambda>a. the (st a ?S)) ?items"
    let ?pairs = "zip ?items (get_source_embeddings fn ?srcs)"
    let ?st1 = "assign_all f ?pairs st"
    let ?ev = "EmbedBatch f ?srcs # map (\<lambda>(item, embedding). SetAttr item f embedding) ?pairs"
    have step: "bulk_embed (fc # configs) data st evs = bulk_embed configs data ?st1 (evs @ ?ev)"
      using fc Some collect_items_filter [OF fdom, of ?S] by (simp add: Let_def)
    have items: "fst ` set ?pairs \<subseteq> set data"
      by (auto dest: set_zip_leftD)
    have dom1: "\<forall>a. dom (?st1 a) = dom (st a)"
      using fdom items by (auto simp: assign_all_dom)
    with keys have keys1: "\<forall>a \<in> set data. set (dict_keys configs) \<subseteq> dom (?st1 a)"
      by simp
    from Cons.IH [OF keys1, of "evs @ ?ev"]
    obtain st' new where r: "bulk_embed configs data ?st1 (evs @ ?ev) = Inr (st', (evs @ ?ev) @ new)"
      and o: "\<forall>a k. k \<notin> set (dict_keys configs) \<longrightarrow> st' a k = ?st1 a k"
      and d: "\<forall>a. dom (st' a) = dom (?st1 a)"
      and e: "\<forall>e \<in> set new. event_field e \<in> set (dict_keys configs)"
      by blast
    have "bulk_embed (fc # configs) data st evs = Inr (st', evs @ (?ev @ new))"
      using step r by simp
    moreover have "\<forall>a k. k \<notin> set (dict_keys (fc # configs)) \<longrightarrow> st' a k = st a k"
      using o fc by (simp add: dict_keys_def assign_all_other_field)
    moreover have "\<forall>a. dom (st' a) = dom (st a)" using d dom1 by simp
    moreover have "\<forall>e \<in> set (?ev @ new). event_field e \<in> set (dict_keys (fc # configs))"
      using e fc by (auto simp: dict_keys_def)
    ultimately show ?thesis by blast
  qed
qed


lemma events_of_append: "events_of V (xs @ ys) = events_of V xs @ events_of V ys"
  by (simp add: events_of_def)

lemma events_of_none: "\<forall>e \<in> set evs. event_field e \<noteq> V \<Longrightarrow> events_of V evs = []"
  by (simp add: events_of_def filter_empty_conv)

lemma events_of_all: "\<forall>e \<in> set evs. event_field e = V \<Longrightarrow> events_of V evs = evs"
  by (simp add: events_of_def filter_id_conv)

lemma needs_embedding_cong:
  "mid a V = st a V \<Longrightarrow> dom (mid a) = dom (st a) \<Longrightarrow>
     needs_embedding V S mid a = needs_embedding V S st a"
  by (auto simp: needs_embedding_def domIff)

text \<open>
  C4. For a table whose configurations are as the constructor leaves them, a
  configuration of the vector field \<open>V\<close> with embedding function \<open>fn\<close> and source field
  \<open>S\<close>, and a list \<open>data\<close> of records that have every configured vector field as an
  attribute, \<open>bulk_insert\<close> succeeds, and with \<open>mid\<close> the store as the configurations
  before that of \<open>V\<close> leave it:
  \<^item> among the events of \<open>V\<close> there is exactly one call of the batch function, and it
    comes first; its argument is the list of the source values of the records of
    \<open>data\<close> whose \<open>V\<close> is null and that have \<open>S\<close>, taken in the order of \<open>data\<close>;
  \<^item> the other events of \<open>V\<close> are the assignments of the returned vectors to those
    records, the i-th collected record with the i-th returned vector (\<open>zip\<close> stops at
    the shorter list);
  \<^item> when no record was collected twice, the i-th collected record is persisted with
    the i-th returned vector as its \<open>V\<close>;
  \<^item> a record that was not collected is persisted with its \<open>V\<close> unchanged;
  \<^item> the source values are those of the list as passed unless \<open>S\<close> is the vector field
    of an earlier configuration.
\<close>

theorem bulk_insert_batch_embedding:
  assumes "t_auto_embedding_configs tbl = Some (pre @ (V, cfg) # post)"
    and "wf_configs (pre @ (V, cfg) # post)"
    and "cfg_embed_fn cfg = Some fn"
    and "\<forall>a \<in> set data. set (dict_keys (pre @ (V, cfg) # post)) \<subseteq> dom (st a)"
  shows "\<exists>mid evs_pre r sources.
       bulk_embed pre data st [] = Inr (mid, evs_pre)
     \<and> bulk_insert refresh_all tbl data st = Inr r
     \<and> sources = map (\<lambda>a. the (mid a (cfg_source_field_name cfg)))
                    (filter (needs_embedding V (cfg_source_field_name cfg) st) data)
     \<and> events_of V (bulk_events r) =
         EmbedBatch V sources
         # map (\<lambda>(item, embedding). SetAttr item V embedding)
             (zip (filter (needs_embedding V (cfg_source_field_name cfg) st) data)
                  (get_source_embeddings fn sources))
     \<and> (distinct (filter (needs_embedding V (cfg_source_field_name cfg) st) data) \<longrightarrow>
          (\<forall>i. i < length (filter (needs_embedding V (cfg_source_field_name cfg) st) data)
               \<and> i < length (get_source_embeddings fn sources) \<longrightarrow>
             bulk_persisted r
               (filter (needs_embedding V (cfg_source_field_name cfg) st) data ! i) V
             = Some (get_source_embeddings fn sources ! i)))
     \<and> (\<forall>a. \<not> needs_embedding V (cfg_source_field_name cfg) st a \<longrightarrow>
          bulk_persisted r a V = st a V)
     \<and> (cfg_source_field_name cfg \<notin> set (dict_keys pre) \<longrightarrow>
          sources = map (\<lambda>a. the (st a (cfg_source_field_name cfg)))
                      (filter (needs_embedding V (cfg_source_field_name cfg) st) data))"
proof -
  let ?S = "cfg_source_field_name cfg"
  let ?items = "filter (needs_embedding V ?S st) data"
  from assms(2) have Vpre: "V \<notin> set (dict_keys pre)" and Vpost: "V \<notin> set (dict_keys post)"
    by (simp_all add: wf_configs_def dict_keys_def)
  from assms(4) have kpre: "\<forall>a \<in> set data. set (dict_keys pre) \<subseteq> dom (st a)"
    and Vdom: "\<forall>a \<in> set data. V \<in> dom (st a)"
    and kpost: "\<forall>a \<in> set data. set (dict_keys post) \<subseteq> dom (st a)"
    by (simp_all add: dict_keys_def)
  from bulk_embed_frame [OF kpre, of "[]"]
  obtain mid evs_pre where mid: "bulk_embed pre data st [] = Inr (mid, evs_pre)"
    and omid: "\<forall>a k. k \<notin> set (dict_keys pre) \<longrightarrow> mid a k = st a k"
    and dmid: "\<forall>a. dom (mid a) = dom (st a)"
    and emid: "\<forall>e \<in> set evs_pre. event_field e \<in> set (dict_keys pre)"
    by auto
  have needs: "needs_embedding V ?S mid = needs_embedding V ?S st"
    using omid dmid Vpre by (intro ext needs_embedding_cong) simp_all
  let ?srcs = "map (\<lambda>a. the (mid a ?S)) ?items"
  let ?embs = "get_source_embeddings fn ?srcs"
  let ?pairs = "zip ?items ?embs"
  let ?st1 = "assign_all V ?pairs mid"
  let ?sets = "map (\<lambda>(item, embedding). SetAttr item V embedding) ?pairs"
  let ?evs1 = "evs_pre @ EmbedBatch V ?srcs # ?sets"
  have Vdom_mid: "\<forall>a \<in> set data. V \<in> dom (mid a)" using Vdom dmid by simp
  have step: "bulk_embed ((V, cfg) # post) data mid evs_pre = bulk_embed post data ?st1 ?evs1"
    using assms(3) collect_items_filter [OF Vdom_mid, of ?S] needs by (simp add: Let_def)
  have items: "fst ` set ?pairs \<subseteq> set data" by (auto dest: set_zip_leftD)
  have dom1: "\<forall>a. dom (?st1 a) = dom (st a)"
    using Vdom dmid items by (auto simp: assign_all_dom)
  with kpost have kpost1: "\<forall>a \<in> set data. set (dict_keys post) \<subseteq> dom (?st1 a)" by simp
  from bulk_embed_frame [OF kpost1, of ?evs1]
  obtain fin new where fin: "bulk_embed post data ?st1 ?evs1 = Inr (fin, ?evs1 @ new)"
    and ofin: "\<forall>a k. k \<notin> set (dict_keys post) \<longrightarrow> fin a k = ?st1 a k"
    and efin: "\<forall>e \<in> set new. event_field e \<in> set (dict_keys post)"
    by blast
  have finV: "\<And>a. fin a V = ?st1 a V" using ofin Vpost by simp
  have whole: "bulk_embed (pre @ (V, cfg) # post) data st [] = Inr (fin, ?evs1 @ new)"
    using mid step fin by (simp add: bulk_embed_append)
  let ?r = "\<lparr> bulk_persisted = fin, bulk_events = ?evs1 @ new,
              bulk_returned = refresh_all data fin \<rparr>"
  have r: "bulk_insert refresh_all tbl data st = Inr ?r"
    using assms(1) whole by (simp add: bulk_insert_def)
  have e1: "events_of V evs_pre = []"
    using emid Vpre by (intro events_of_none) auto
  have e2: "events_of V new = []"
    using efin Vpost by (intro events_of_none) auto
  have e3: "events_of V (EmbedBatch V ?srcs # ?sets) = EmbedBatch V ?srcs # ?sets"
    by (intro events_of_all) auto
  have evs: "events_of V (?evs1 @ new) = EmbedBatch V ?srcs # ?sets"
    using e1 e2 e3 by (simp add: events_of_append del: append_Cons)
  have pos: "distinct ?items \<longrightarrow>
      (\<forall>i. i < length ?items \<and> i < length ?embs \<longrightarrow> fin (?items ! i) V = Some (?embs ! i))"
  proof (intro impI allI)
    fix i
    assume d: "distinct ?items" and i: "i < length ?items \<and> i < length ?embs"
    have "map fst ?pairs = take (length ?embs) ?items"
      by (simp add: map_fst_zip_take min_def)
    with d have dp: "distinct (map fst ?pairs)" by simp
    from i have "(?items ! i, ?embs ! i) \<in> set ?pairs"
      by (auto simp: set_zip)
    from assign_all_distinct [OF dp this]
    show "fin (?items ! i) V = Some (?embs ! i)" by (simp add: finV)
  qed
  have keep: "\<forall>a. \<not> needs_embedding V ?S st a \<longrightarrow> fin a V = st a V"
  proof (intro allI impI)
    fix a assume "\<not> needs_embedding V ?S st a"
    then have "a \<notin> fst ` set ?pairs" by (auto dest: set_zip_leftD)
    then have "?st1 a = mid a" by (rule assign_all_other_item)
    with finV omid Vpre show "fin a V = st a V" by simp
  qed
  have src: "?S \<notin> set (dict_keys pre) \<longrightarrow> ?srcs = map (\<lambda>a. the (st a ?S)) ?items"
    using omid by simp
  from mid r evs pos keep src show ?thesis
    by (intro exI [of _ mid] exI [of _ evs_pre] exI [of _ ?r] exI [of _ ?srcs]) simp
qed


text \<open>
  On the example table, for the three records of the store: one batch call, on the texts
  of the first and the third record, and their vectors assigned in that order; the
  second record keeps its vector.
\<close>

theorem bulk_insert_batch_embedding_witness:
  "\<exists>r. bulk_insert keep_store docs_table [0, 1, 2] docs_store = Inr r
     \<and> events_of ''embedding'' (bulk_events r) =
         [EmbedBatch ''embedding'' [PStr ''hello'', PStr ''abc''],
          SetAttr 0 ''embedding'' (PVec 5), SetAttr 2 ''embedding'' (PVec 3)]
     \<and> bulk_persisted r 0 ''embedding'' = Some (PVec 5)
     \<and> bulk_persisted r 1 ''embedding'' = Some (PVec 9)
     \<and> bulk_persisted r 2 ''embedding'' = Some (PVec 3)"
proof -
  let ?items = "filter (needs_embedding ''embedding'' ''text'' docs_store) [0, 1, 2]"
  have cfgs: "t_auto_embedding_configs docs_table = Some ([] @ (''embedding'', docs_config) # [])"
    by (simp add: docs_configs)
  have wf: "wf_configs ([] @ (''embedding'', docs_config) # [])"
    by (simp add: docs_wf_configs)
  have typed: "\<forall>a \<in> set [0, 1, 2].
      set (dict_keys ([] @ (''embedding'', docs_config) # [])) \<subseteq> dom (docs_store a)"
    by (simp add: dict_keys_def docs_store_def)
  have items: "?items = [0, 2]"
    by (simp add: needs_embedding_def docs_store_def)
  from bulk_insert_batch_embedding [OF cfgs wf docs_config_fn typed, of keep_store]
  obtain mid evs_pre r sources where mid: "bulk_embed [] [0, 1, 2] docs_store [] = Inr (mid, evs_pre)"
    and r: "bulk_insert keep_store docs_table [0, 1, 2] docs_store = Inr r"
    and s: "sources = map (\<lambda>a. the (mid a ''text'')) ?items"
    and e: "events_of ''embedding'' (bulk_events r) =
         EmbedBatch ''embedding'' sources
         # map (\<lambda>(item, embedding). SetAttr item ''embedding'' embedding)
             (zip ?items (get_source_embeddings len_embed sources))"
    and p: "distinct ?items \<longrightarrow>
          (\<forall>i. i < length ?items \<and> i < length (get_source_embeddings len_embed sources) \<longrightarrow>
             bulk_persisted r (?items ! i) ''embedding''
               = Some (get_source_embeddings len_embed sources ! i))"
    and k: "\<forall>a. \<not> needs_embedding ''embedding'' ''text'' docs_store a \<longrightarrow>
          bulk_persisted r a ''embedding'' = docs_store a ''embedding''"
    unfolding docs_config_source by blast
  from mid have "mid = docs_store" by simp
  with s [unfolded items] have src: "sources = [PStr ''hello'', PStr ''abc'']"
    by (simp add: docs_store_def)
  have embs: "get_source_embeddings len_embed sources = [PVec 5, PVec 3]"
    by (simp add: src len_embed_def len_vec_def)
  from e [unfolded items embs] have ev: "events_of ''embedding'' (bulk_events r) =
         [EmbedBatch ''embedding'' [PStr ''hello'', PStr ''abc''],
          SetAttr 0 ''embedding'' (PVec 5), SetAttr 2 ''embedding'' (PVec 3)]"
    by (simp add: src)
  from p [unfolded items embs] have p': "\<forall>i. i < 2 \<longrightarrow>
      bulk_persisted r ([0, 2] ! i) ''embedding'' = Some ([PVec 5, PVec 3] ! i)"
    by simp
  from p' [rule_format, of 0] have p0: "bulk_persisted r 0 ''embedding'' = Some (PVec 5)"
    by simp
  from p' [rule_format, of 1] have p2: "bulk_persisted r 2 ''embedding'' = Some (PVec 3)"
    by simp
  from k [rule_format, of 1] have p1: "bulk_persisted r 1 ''embedding'' = Some (PVec 9)"
    by (simp add: needs_embedding_def docs_store_def)
  from r ev p0 p1 p2 show ?thesis by blast
qed

section \<open>Properties of index synchronization\<close>

lemma indexed_expressions_append:
  "indexed_expressions (xs @ ys) =
     (case indexed_expressions xs of
        Inl e \<Rightarrow> Inl e
      | Inr a \<Rightarrow> (case indexed_expressions ys of Inl e \<Rightarrow> Inl e | Inr b \<Rightarrow> Inr (a @ b)))"
  by (induction xs) (auto split: sum.splits)

lemma indexed_columns_append:
  "indexed_columns (xs @ ys) =
     (case indexed_columns xs of
        Inl e \<Rightarrow> Inl e
      | Inr a \<Rightarrow> (case indexed_columns ys of Inl e \<Rightarrow> Inl e | Inr b \<Rightarrow> Inr (a @ b)))"
  by (induction xs) (auto split: sum.splits)

lemma get_index_type_vector: "get_index_type (vector_index_for fde nf) = Inr ''vector''"
  by (simp add: get_index_type_def vector_index_for_def VectorIndex_def lower_VECTOR)

lemma get_index_type_fulltext: "get_index_type (fulltext_index_for nf) = Inr ''fulltext''"
  by (simp add: get_index_type_def fulltext_index_for_def FullTextIndex_def lower_FULLTEXT)

lemma first_expression_text_vector:
  "first_expression_text (vector_index_for fde nf) = Inr (field_expression fde nf)"
  by (simp add: first_expression_text_def vector_index_for_def VectorIndex_def
      field_expression_def)

lemma first_column_name_fulltext: "first_column_name (fulltext_index_for nf) = Inr (fst nf)"
  by (simp add: first_column_name_def fulltext_index_for_def FullTextIndex_def)

lemma indexed_expressions_vector_indexes:
  "indexed_expressions (map (vector_index_for fde) sel) = Inr (map (field_expression fde) sel)"
  by (induction sel) (simp_all add: get_index_type_vector first_expression_text_vector)

lemma indexed_expressions_fulltext_indexes:
  "indexed_expressions (map fulltext_index_for sel) = Inr []"
  by (induction sel) (simp_all add: get_index_type_fulltext)

lemma indexed_columns_fulltext_indexes:
  "indexed_columns (map fulltext_index_for sel) = Inr (map fst sel)"
  by (induction sel) (simp_all add: get_index_type_fulltext first_column_name_fulltext)

lemma indexed_columns_vector_indexes:
  "indexed_columns (map (vector_index_for fde) sel) = Inr []"
  by (induction sel) (simp_all add: get_index_type_vector)

text \<open>
  A scan that returns has found a \<open>mysql_prefix\<close> on every index; an index without one
  makes the scan, and with it the loop of a field that asks for an index, raise.
\<close>

lemma indexed_expressions_prefix:
  "indexed_expressions ixs = Inr E \<Longrightarrow> \<forall>ix \<in> set ixs. mysql_prefix ix \<noteq> None"
  by (induction ixs arbitrary: E)
    (auto simp: get_index_type_def split: sum.splits option.splits if_splits)

lemma indexed_columns_prefix:
  "indexed_columns ixs = Inr C \<Longrightarrow> \<forall>ix \<in> set ixs. mysql_prefix ix \<noteq> None"
  by (induction ixs arbitrary: C)
    (auto simp: get_index_type_def split: sum.splits option.splits if_splits)

lemma auto_create_vector_index_plain_index:
  "mysql_prefix ix = None \<Longrightarrow> \<not> get_skip_index f \<Longrightarrow>
     auto_create_vector_index fde ((n, f) # rest) (t\<lparr>tbl_indexes := ix # ixs\<rparr>)
       = Inl (AttributeError
                (quoted ''NoneType'' @ '' object has no attribute '' @ quoted ''lower''))"
  by (simp add: get_index_type_def)

lemma auto_create_fulltext_index_plain_index:
  "mysql_prefix ix = None \<Longrightarrow> \<not> get_skip_index f \<Longrightarrow>
     auto_create_fulltext_index ((n, f) # rest) (t\<lparr>tbl_indexes := ix # ixs\<rparr>)
       = Inl (AttributeError
                (quoted ''NoneType'' @ '' object has no attribute '' @ quoted ''lower''))"
  by (simp add: get_index_type_def)

text \<open>One step of each loop.\<close>

lemma auto_create_vector_index_skip:
  "get_skip_index f \<Longrightarrow>
     auto_create_vector_index fde ((n, f) # rest) t = auto_create_vector_index fde rest t"
  by simp

lemma auto_create_vector_index_present:
  "\<not> get_skip_index f \<Longrightarrow> indexed_expressions (tbl_indexes t) = Inr E \<Longrightarrow>
   field_expression fde (n, f) \<in> set E \<Longrightarrow>
     auto_create_vector_index fde ((n, f) # rest) t = auto_create_vector_index fde rest t"
  by (simp add: field_expression_def)

lemma auto_create_vector_index_absent:
  "\<not> get_skip_index f \<Longrightarrow> indexed_expressions (tbl_indexes t) = Inr E \<Longrightarrow>
   field_expression fde (n, f) \<notin> set E \<Longrightarrow>
     auto_create_vector_index fde ((n, f) # rest) t =
     auto_create_vector_index fde rest (append_constraint t (vector_index_for fde (n, f)))"
  by (simp add: field_expression_def vector_index_for_def Let_def)

lemma auto_create_vector_index_error:
  "\<not> get_skip_index f \<Longrightarrow> indexed_expressions (tbl_indexes t) = Inl e \<Longrightarrow>
     auto_create_vector_index fde ((n, f) # rest) t = Inl e"
  by simp

lemma auto_create_fulltext_index_skip:
  "get_skip_index f \<Longrightarrow>
     auto_create_fulltext_index ((n, f) # rest) t = auto_create_fulltext_index rest t"
  by simp

lemma auto_create_fulltext_index_present:
  "\<not> get_skip_index f \<Longrightarrow> indexed_columns (tbl_indexes t) = Inr C \<Longrightarrow> n \<in> set C \<Longrightarrow>
     auto_create_fulltext_index ((n, f) # rest) t = auto_create_fulltext_index rest t"
  by simp

lemma auto_create_fulltext_index_absent:
  "\<not> get_skip_index f \<Longrightarrow> indexed_columns (tbl_indexes t) = Inr C \<Longrightarrow> n \<notin> set C \<Longrightarrow>
     auto_create_fulltext_index ((n, f) # rest) t =
     auto_create_fulltext_index rest (append_constraint t (fulltext_index_for (n, f)))"
  by (simp add: fulltext_index_for_def)

lemma auto_create_fulltext_index_error:
  "\<not> get_skip_index f \<Longrightarrow> indexed_columns (tbl_indexes t) = Inl e \<Longrightarrow>
     auto_create_fulltext_index ((n, f) # rest) t = Inl e"
  by simp


text \<open>What one run of the vector loop leaves behind.\<close>

lemma auto_create_vector_index_result:
  "auto_create_vector_index fde vfields t = Inr t1 \<Longrightarrow>
   \<exists>sel. t1 = t\<lparr>tbl_indexes := tbl_indexes t @ map (vector_index_for fde) sel\<rparr>
     \<and> set sel \<subseteq> set vfields
     \<and> (\<forall>nf \<in> set sel. \<not> get_skip_index (snd nf)
           \<and> (\<exists>E. indexed_expressions (tbl_indexes t) = Inr E
                  \<and> field_expression fde nf \<notin> set E))
     \<and> distinct (map (field_expression fde) sel)
     \<and> (\<forall>nf \<in> set vfields. \<not> get_skip_index (snd nf) \<longrightarrow>
           (\<exists>E. indexed_expressions (tbl_indexes t) = Inr E
              \<and> field_expression fde nf \<in> set (E @ map (field_expression fde) sel)))"
proof (induction vfields arbitrary: t)
  case Nil
  then have "t1 = t\<lparr>tbl_indexes := tbl_indexes t @ map (vector_index_for fde) []\<rparr>" by simp
  then show ?case by (intro exI [of _ "[]"]) simp
next
  case (Cons nf vfields)
  obtain n f where nf: "nf = (n, f)" by (cases nf)
  show ?case
  proof (cases "get_skip_index f")
    case True
    with Cons.prems nf have "auto_create_vector_index fde vfields t = Inr t1" by simp
    from Cons.IH [OF this] True nf show ?thesis by auto
  next
    case noskip: False
    show ?thesis
    proof (cases "indexed_expressions (tbl_indexes t)")
      case (Inl e)
      with Cons.prems nf noskip show ?thesis by simp
    next
      case (Inr E)
      show ?thesis
      proof (cases "field_expression fde (n, f) \<in> set E")
        case True
        have "auto_create_vector_index fde (nf # vfields) t
                = auto_create_vector_index fde vfields t"
          unfolding nf by (rule auto_create_vector_index_present [OF noskip Inr True])
        with Cons.prems have "auto_create_vector_index fde vfields t = Inr t1" by simp
        from Cons.IH [OF this] obtain sel
          where a: "t1 = t\<lparr>tbl_indexes := tbl_indexes t @ map (vector_index_for fde) sel\<rparr>"
            and b: "set sel \<subseteq> set vfields"
            and c: "\<forall>nf \<in> set sel. \<not> get_skip_index (snd nf)
                 \<and> (\<exists>E. indexed_expressions (tbl_indexes t) = Inr E
                        \<and> field_expression fde nf \<notin> set E)"
            and d: "distinct (map (field_expression fde) sel)"
            and e: "\<forall>nf \<in> set vfields. \<not> get_skip_index (snd nf) \<longrightarrow>
                 (\<exists>E. indexed_expressions (tbl_indexes t) = Inr E
                    \<and> field_expression fde nf \<in> set (E @ map (field_expression fde) sel))"
          by blast
        have e': "\<forall>x \<in> set (nf # vfields). \<not> get_skip_index (snd x) \<longrightarrow>
                 (\<exists>E. indexed_expressions (tbl_indexes t) = Inr E
                    \<and> field_expression fde x \<in> set (E @ map (field_expression fde) sel))"
          using e nf True Inr by auto
        from a b c d e' show ?thesis
          by (intro exI [of _ sel]) auto
      next
        case False
        let ?t' = "append_constraint t (vector_index_for fde (n, f))"
        have "auto_create_vector_index fde (nf # vfields) t
                = auto_create_vector_index fde vfields ?t'"
          unfolding nf by (rule auto_create_vector_index_absent [OF noskip Inr False])
        with Cons.prems have "auto_create_vector_index fde vfields ?t' = Inr t1" by simp
        from Cons.IH [OF this] obtain sel
          where a: "t1 = ?t'\<lparr>tbl_indexes := tbl_indexes ?t' @ map (vector_index_for fde) sel\<rparr>"
            and b: "set sel \<subseteq> set vfields"
            and c: "\<forall>nf \<in> set sel. \<not> get_skip_index (snd nf)
                 \<and> (\<exists>E. indexed_expressions (tbl_indexes ?t') = Inr E
                        \<and> field_expression fde nf \<notin> set E)"
            and d: "distinct (map (field_expression fde) sel)"
            and e: "\<forall>nf \<in> set vfields. \<not> get_skip_index (snd nf) \<longrightarrow>
                 (\<exists>E. indexed_expressions (tbl_indexes ?t') = Inr E
                    \<and> field_expression fde nf \<in> set (E @ map (field_expression fde) sel))"
          by blast
        have E': "indexed_expressions (tbl_indexes ?t') = Inr (E @ [field_expression fde (n, f)])"
          using Inr indexed_expressions_vector_indexes [of fde "[(n, f)]"]
          by (simp add: append_constraint_def indexed_expressions_append)
        have a': "t1 = t\<lparr>tbl_indexes :=
                      tbl_indexes t @ map (vector_index_for fde) ((n, f) # sel)\<rparr>"
          using a by (simp add: append_constraint_def)
        have c': "\<forall>x \<in> set ((n, f) # sel). \<not> get_skip_index (snd x)
                 \<and> (\<exists>E. indexed_expressions (tbl_indexes t) = Inr E
                        \<and> field_expression fde x \<notin> set E)"
          using c E' Inr noskip False by auto
        have d': "distinct (map (field_expression fde) ((n, f) # sel))"
          using c d E' by auto
        have e': "\<forall>x \<in> set (nf # vfields). \<not> get_skip_index (snd x) \<longrightarrow>
                 (\<exists>E. indexed_expressions (tbl_indexes t) = Inr E
                    \<and> field_expression fde x
                        \<in> set (E @ map (field_expression fde) ((n, f) # sel)))"
          using e E' Inr nf by auto
        from a' b c' d' e' nf show ?thesis
          by (intro exI [of _ "(n, f) # sel"]) auto
      qed
    qed
  qed
qed


lemma auto_create_fulltext_index_result:
  "auto_create_fulltext_index tfields t = Inr t1 \<Longrightarrow>
   \<exists>sel. t1 = t\<lparr>tbl_indexes := tbl_indexes t @ map fulltext_index_for sel\<rparr>
     \<and> set sel \<subseteq> set tfields
     \<and> (\<forall>nf \<in> set sel. \<not> get_skip_index (snd nf)
           \<and> (\<exists>C. indexed_columns (tbl_indexes t) = Inr C \<and> fst nf \<notin> set C))
     \<and> distinct (map fst sel)
     \<and> (\<forall>nf \<in> set tfields. \<not> get_skip_index (snd nf) \<longrightarrow>
           (\<exists>C. indexed_columns (tbl_indexes t) = Inr C
              \<and> fst nf \<in> set (C @ map fst sel)))"
proof (induction tfields arbitrary: t)
  case Nil
  then have "t1 = t\<lparr>tbl_indexes := tbl_indexes t @ map fulltext_index_for []\<rparr>" by simp
  then show ?case by (intro exI [of _ "[]"]) simp
next
  case (Cons nf tfields)
  obtain n f where nf: "nf = (n, f)" by (cases nf)
  show ?case
  proof (cases "get_skip_index f")
    case True
    with Cons.prems nf have "auto_create_fulltext_index tfields t = Inr t1" by simp
    from Cons.IH [OF this] True nf show ?thesis by auto
  next
    case noskip: False
    show ?thesis
    proof (cases "indexed_columns (tbl_indexes t)")
      case (Inl e)
      with Cons.prems nf noskip show ?thesis by simp
    next
      case (Inr C)
      show ?thesis
      proof (cases "n \<in> set C")
        case True
        have "auto_create_fulltext_index (nf # tfields) t = auto_create_fulltext_index tfields t"
          unfolding nf by (rule auto_create_fulltext_index_present [OF noskip Inr True])
        with Cons.prems have "auto_create_fulltext_index tfields t = Inr t1" by simp
        from Cons.IH [OF this] obtain sel
          where a: "t1 = t\<lparr>tbl_indexes := tbl_indexes t @ map fulltext_index_for sel\<rparr>"
            and b: "set sel \<subseteq> set tfields"
            and c: "\<forall>nf \<in> set sel. \<not> get_skip_index (snd nf)
                 \<and> (\<exists>C. indexed_columns (tbl_indexes t) = Inr C \<and> fst nf \<notin> set C)"
            and d: "distinct (map fst sel)"
            and e: "\<forall>nf \<in> set tfields. \<not> get_skip_index (snd nf) \<longrightarrow>
                 (\<exists>C. indexed_columns (tbl_indexes t) = Inr C
                    \<and> fst nf \<in> set (C @ map fst sel))"
          by blast
        have e': "\<forall>x \<in> set (nf # tfields). \<not> get_skip_index (snd x) \<longrightarrow>
                 (\<exists>C. indexed_columns (tbl_indexes t) = Inr C
                    \<and> fst x \<in> set (C @ map fst sel))"
          using e nf True Inr by auto
        from a b c d e' show ?thesis
          by (intro exI [of _ sel]) auto
      next
        case False
        let ?t' = "append_constraint t (fulltext_index_for (n, f))"
        have "auto_create_fulltext_index (nf # tfields) t
                = auto_create_fulltext_index tfields ?t'"
          unfolding nf by (rule auto_create_fulltext_index_absent [OF noskip Inr False])
        with Cons.prems have "auto_create_fulltext_index tfields ?t' = Inr t1" by simp
        from Cons.IH [OF this] obtain sel
          where a: "t1 = ?t'\<lparr>tbl_indexes := tbl_indexes ?t' @ map fulltext_index_for sel\<rparr>"
            and b: "set sel \<subseteq> set tfields"
            and c: "\<forall>nf \<in> set sel. \<not> get_skip_index (snd nf)
                 \<and> (\<exists>C. indexed_columns (tbl_indexes ?t') = Inr C \<and> fst nf \<notin> set C)"
            and d: "distinct (map fst sel)"
            and e: "\<forall>nf \<in> set tfields. \<not> get_skip_index (snd nf) \<longrightarrow>
                 (\<exists>C. indexed_columns (tbl_indexes ?t') = Inr C
                    \<and> fst nf \<in> set (C @ map fst sel))"
          by blast
        have C': "indexed_columns (tbl_indexes ?t') = Inr (C @ [n])"
          using Inr indexed_columns_fulltext_indexes [of "[(n, f)]"]
          by (simp add: append_constraint_def indexed_columns_append)
        have a': "t1 = t\<lparr>tbl_indexes := tbl_indexes t @ map fulltext_index_for ((n, f) # sel)\<rparr>"
          using a by (simp add: append_constraint_def)
        have c': "\<forall>x \<in> set ((n, f) # sel). \<not> get_skip_index (snd x)
                 \<and> (\<exists>C. indexed_columns (tbl_indexes t) = Inr C \<and> fst x \<notin> set C)"
          using c C' Inr noskip False by auto
        have d': "distinct (map fst ((n, f) # sel))"
          using c d C' by auto
        have e': "\<forall>x \<in> set (nf # tfields). \<not> get_skip_index (snd x) \<longrightarrow>
                 (\<exists>C. indexed_columns (tbl_indexes t) = Inr C
                    \<and> fst x \<in> set (C @ map fst ((n, f) # sel)))"
          using e C' Inr nf by auto
        from a' b c' d' e' nf show ?thesis
          by (intro exI [of _ "(n, f) # sel"]) auto
      qed
    qed
  qed
qed

text \<open>A table that has every index the fields ask for is left as it is.\<close>

lemma auto_create_vector_index_noop:
  "\<forall>nf \<in> set vfields. \<not> get_skip_index (snd nf) \<longrightarrow>
      (\<exists>E. indexed_expressions (tbl_indexes t) = Inr E \<and> field_expression fde nf \<in> set E)
   \<Longrightarrow> auto_create_vector_index fde vfields t = Inr t"
proof (induction vfields)
  case Nil
  then show ?case by simp
next
  case (Cons nf vfields)
  obtain n f where nf: "nf = (n, f)" by (cases nf)
  from Cons have IH: "auto_create_vector_index fde vfields t = Inr t" by simp
  show ?case
  proof (cases "get_skip_index f")
    case True
    with IH nf show ?thesis by simp
  next
    case False
    with Cons.prems nf obtain E where "indexed_expressions (tbl_indexes t) = Inr E"
      "field_expression fde (n, f) \<in> set E" by auto
    from auto_create_vector_index_present [OF False this] IH nf show ?thesis by simp
  qed
qed

lemma auto_create_fulltext_index_noop:
  "\<forall>nf \<in> set tfields. \<not> get_skip_index (snd nf) \<longrightarrow>
      (\<exists>C. indexed_columns (tbl_indexes t) = Inr C \<and> fst nf \<in> set C)
   \<Longrightarrow> auto_create_fulltext_index tfields t = Inr t"
proof (induction tfields)
  case Nil
  then show ?case by simp
next
  case (Cons nf tfields)
  obtain n f where nf: "nf = (n, f)" by (cases nf)
  from Cons have IH: "auto_create_fulltext_index tfields t = Inr t" by simp
  show ?case
  proof (cases "get_skip_index f")
    case True
    with IH nf show ?thesis by simp
  next
    case False
    with Cons.prems nf obtain C where "indexed_columns (tbl_indexes t) = Inr C" "n \<in> set C"
      by auto
    from auto_create_fulltext_index_present [OF False this] IH nf show ?thesis by simp
  qed
qed


lemma indexed_columns_ignores_vector_indexes:
  "indexed_columns (xs @ map (vector_index_for fde) sel) = indexed_columns xs"
  by (simp add: indexed_columns_append indexed_columns_vector_indexes split: sum.splits)

lemma indexed_expressions_ignores_fulltext_indexes:
  "indexed_expressions (xs @ map fulltext_index_for sel) = indexed_expressions xs"
  by (simp add: indexed_expressions_append indexed_expressions_fulltext_indexes
      split: sum.splits)

lemma setup_from_fields_Some:
  assumes "sch_pydantic_fields schema = Some pf"
    and "classify_fields pf [] [] = (vfields, tfields)"
  shows "setup_from_fields fde schema =
     (case auto_create_vector_index fde vfields (sch_table schema) of
        Inl e \<Rightarrow> Inl e
      | Inr t1 \<Rightarrow>
          (case auto_create_fulltext_index tfields t1 of
             Inl e \<Rightarrow> Inl e
           | Inr t2 \<Rightarrow> Inr (Some (setup_auto_embedding vfields []), t2)))"
  using assms by (simp add: setup_from_fields_def)

text \<open>
  C5. Index synchronization, as the constructor runs it for a schema with per-field
  metadata: first the vector fields, then the text fields. When it succeeds, the table's
  indexes are the ones it had, followed by new vector indexes for some vector fields
  \<open>vsel\<close> and new full-text indexes for some text fields \<open>fsel\<close>, and:
  \<^item> a vector index is appended only for a field without the skip-index flag, only if
    no vector-kind index that was on the table has the distance expression of the
    field's (column, metric), and never twice for the same expression;
  \<^item> a full-text index is appended only for a field without the skip-index flag, only
    if no fulltext-kind index that was on the table has the field's column as its
    column, and never twice for the same column;
  \<^item> afterwards every vector field without the flag has its expression on a
    vector-kind index, and every text field without the flag its column on a
    fulltext-kind index;
  \<^item> the name of a new vector index is \<open>vec_idx_<column>_<metric in lower case>\<close>, that
    of a new full-text index \<open>fts_idx_<column>\<close>;
  \<^item> running the synchronization again, on the table it has produced, succeeds and
    leaves the table as it is;
  \<^item> when some field asks for an index, every index that was on the table has a
    \<open>mysql_prefix\<close>: reading the kind of an index without one raises, and the
    synchronization does not succeed.
  A fulltext-kind index is looked up by its first column, as the code does.
\<close>

theorem index_synchronization:
  assumes "sch_pydantic_fields schema = Some pf"
    and "classify_fields pf [] [] = (vfields, tfields)"
    and "setup_from_fields fde schema = Inr (cfgs, t2)"
  shows "\<exists>vsel fsel.
      t2 = (sch_table schema)\<lparr>tbl_indexes :=
             tbl_indexes (sch_table schema) @ map (vector_index_for fde) vsel
               @ map fulltext_index_for fsel\<rparr>
    \<and> set vsel \<subseteq> set vfields \<and> set fsel \<subseteq> set tfields
    \<and> (\<forall>nf \<in> set vsel. \<not> get_skip_index (snd nf)
          \<and> (\<exists>E. indexed_expressions (tbl_indexes (sch_table schema)) = Inr E
                 \<and> field_expression fde nf \<notin> set E))
    \<and> distinct (map (field_expression fde) vsel)
    \<and> (\<forall>nf \<in> set fsel. \<not> get_skip_index (snd nf)
          \<and> (\<exists>C. indexed_columns (tbl_indexes (sch_table schema)) = Inr C
                 \<and> fst nf \<notin> set C))
    \<and> distinct (map fst fsel)
    \<and> (\<forall>nf \<in> set vfields. \<not> get_skip_index (snd nf) \<longrightarrow>
          (\<exists>E. indexed_expressions (tbl_indexes t2) = Inr E \<and> field_expression fde nf \<in> set E))
    \<and> (\<forall>nf \<in> set tfields. \<not> get_skip_index (snd nf) \<longrightarrow>
          (\<exists>C. indexed_columns (tbl_indexes t2) = Inr C \<and> fst nf \<in> set C))
    \<and> (\<forall>nf. idx_name (vector_index_for fde nf)
            = ''vec_idx_'' @ fst nf @ ''_'' @ lower (get_distance_metric (snd nf)))
    \<and> (\<forall>nf. idx_name (fulltext_index_for nf) = ''fts_idx_'' @ fst nf)
    \<and> setup_from_fields fde (schema\<lparr>sch_table := t2\<rparr>) = Inr (cfgs, t2)
    \<and> ((\<exists>nf \<in> set vfields \<union> set tfields. \<not> get_skip_index (snd nf)) \<longrightarrow>
          (\<forall>ix \<in> set (tbl_indexes (sch_table schema)). mysql_prefix ix \<noteq> None))"
proof -
  let ?t = "sch_table schema"
  note unfold = setup_from_fields_Some [OF assms(1,2), of fde]
  from assms(3) obtain t1 where V: "auto_create_vector_index fde vfields ?t = Inr t1"
    and F: "auto_create_fulltext_index tfields t1 = Inr t2"
    and cfgs: "cfgs = Some (setup_auto_embedding vfields [])"
    unfolding unfold by (auto split: sum.splits)
  from auto_create_vector_index_result [OF V] obtain vsel
    where v1: "t1 = ?t\<lparr>tbl_indexes := tbl_indexes ?t @ map (vector_index_for fde) vsel\<rparr>"
      and v2: "set vsel \<subseteq> set vfields"
      and v3: "\<forall>nf \<in> set vsel. \<not> get_skip_index (snd nf)
           \<and> (\<exists>E. indexed_expressions (tbl_indexes ?t) = Inr E
                  \<and> field_expression fde nf \<notin> set E)"
      and v4: "distinct (map (field_expression fde) vsel)"
      and v5: "\<forall>nf \<in> set vfields. \<not> get_skip_index (snd nf) \<longrightarrow>
           (\<exists>E. indexed_expressions (tbl_indexes ?t) = Inr E
              \<and> field_expression fde nf \<in> set (E @ map (field_expression fde) vsel))"
    by blast
  from auto_create_fulltext_index_result [OF F] obtain fsel
    where f1: "t2 = t1\<lparr>tbl_indexes := tbl_indexes t1 @ map fulltext_index_for fsel\<rparr>"
      and f2: "set fsel \<subseteq> set tfields"
      and f3: "\<forall>nf \<in> set fsel. \<not> get_skip_index (snd nf)
           \<and> (\<exists>C. indexed_columns (tbl_indexes t1) = Inr C \<and> fst nf \<notin> set C)"
      and f4: "distinct (map fst fsel)"
      and f5: "\<forall>nf \<in> set tfields. \<not> get_skip_index (snd nf) \<longrightarrow>
           (\<exists>C. indexed_columns (tbl_indexes t1) = Inr C
              \<and> fst nf \<in> set (C @ map fst fsel))"
    by blast
  have i1: "tbl_indexes t1 = tbl_indexes ?t @ map (vector_index_for fde) vsel"
    using v1 by simp
  have i2: "tbl_indexes t2 = tbl_indexes t1 @ map fulltext_index_for fsel"
    using f1 by simp
  have shape: "t2 = ?t\<lparr>tbl_indexes :=
             tbl_indexes ?t @ map (vector_index_for fde) vsel @ map fulltext_index_for fsel\<rparr>"
    using v1 f1 by simp
  have cols1: "indexed_columns (tbl_indexes t1) = indexed_columns (tbl_indexes ?t)"
    unfolding i1 by (rule indexed_columns_ignores_vector_indexes)
  have f3': "\<forall>nf \<in> set fsel. \<not> get_skip_index (snd nf)
           \<and> (\<exists>C. indexed_columns (tbl_indexes ?t) = Inr C \<and> fst nf \<notin> set C)"
    using f3 unfolding cols1 .
  have exprs2: "indexed_expressions (tbl_indexes t2) = indexed_expressions (tbl_indexes t1)"
    unfolding i2 by (rule indexed_expressions_ignores_fulltext_indexes)
  have covV: "\<forall>nf \<in> set vfields. \<not> get_skip_index (snd nf) \<longrightarrow>
          (\<exists>E. indexed_expressions (tbl_indexes t2) = Inr E \<and> field_expression fde nf \<in> set E)"
  proof (intro ballI impI)
    fix nf assume "nf \<in> set vfields" "\<not> get_skip_index (snd nf)"
    with v5 obtain E where E: "indexed_expressions (tbl_indexes ?t) = Inr E"
      and m: "field_expression fde nf \<in> set (E @ map (field_expression fde) vsel)"
      by blast
    have "indexed_expressions (tbl_indexes t2) = Inr (E @ map (field_expression fde) vsel)"
      unfolding exprs2 i1
      by (simp add: indexed_expressions_append E indexed_expressions_vector_indexes)
    with m show "\<exists>E. indexed_expressions (tbl_indexes t2) = Inr E
        \<and> field_expression fde nf \<in> set E"
      by blast
  qed
  have covF: "\<forall>nf \<in> set tfields. \<not> get_skip_index (snd nf) \<longrightarrow>
          (\<exists>C. indexed_columns (tbl_indexes t2) = Inr C \<and> fst nf \<in> set C)"
  proof (intro ballI impI)
    fix nf assume "nf \<in> set tfields" "\<not> get_skip_index (snd nf)"
    with f5 obtain C where C: "indexed_columns (tbl_indexes t1) = Inr C"
      and m: "fst nf \<in> set (C @ map fst fsel)"
      by blast
    have "indexed_columns (tbl_indexes t2) = Inr (C @ map fst fsel)"
      unfolding i2 by (simp add: indexed_columns_append C indexed_columns_fulltext_indexes)
    with m show "\<exists>C. indexed_columns (tbl_indexes t2) = Inr C \<and> fst nf \<in> set C"
      by blast
  qed
  have again: "setup_from_fields fde (schema\<lparr>sch_table := t2\<rparr>) = Inr (cfgs, t2)"
  proof -
    have p: "sch_pydantic_fields (schema\<lparr>sch_table := t2\<rparr>) = Some pf"
      using assms(1) by simp
    have "auto_create_vector_index fde vfields t2 = Inr t2"
      using covV by (rule auto_create_vector_index_noop)
    moreover have "auto_create_fulltext_index tfields t2 = Inr t2"
      using covF by (rule auto_create_fulltext_index_noop)
    ultimately show ?thesis
      unfolding setup_from_fields_Some [OF p assms(2), of fde] cfgs by simp
  qed
  have names: "\<forall>nf. idx_name (vector_index_for fde nf)
            = ''vec_idx_'' @ fst nf @ ''_'' @ lower (get_distance_metric (snd nf))"
    by (simp add: vector_index_for_def VectorIndex_def vec_idx_name_def)
  have fnames: "\<forall>nf. idx_name (fulltext_index_for nf) = ''fts_idx_'' @ fst nf"
    by (simp add: fulltext_index_for_def FullTextIndex_def fts_idx_name_def)
  have prefixes: "(\<exists>nf \<in> set vfields \<union> set tfields. \<not> get_skip_index (snd nf)) \<longrightarrow>
          (\<forall>ix \<in> set (tbl_indexes ?t). mysql_prefix ix \<noteq> None)"
  proof
    assume "\<exists>nf \<in> set vfields \<union> set tfields. \<not> get_skip_index (snd nf)"
    then obtain nf where nf: "nf \<in> set vfields \<or> nf \<in> set tfields"
      and ns: "\<not> get_skip_index (snd nf)"
      by auto
    from nf show "\<forall>ix \<in> set (tbl_indexes ?t). mysql_prefix ix \<noteq> None"
    proof
      assume "nf \<in> set vfields"
      with v5 ns obtain E where "indexed_expressions (tbl_indexes ?t) = Inr E" by blast
      then show ?thesis by (rule indexed_expressions_prefix)
    next
      assume "nf \<in> set tfields"
      with f5 ns obtain C where "indexed_columns (tbl_indexes t1) = Inr C" by blast
      then have "indexed_columns (tbl_indexes ?t) = Inr C" unfolding cols1 .
      then show ?thesis by (rule indexed_columns_prefix)
    qed
  qed
  from shape v2 f2 v3 v4 f3' f4 covV covF names fnames again prefixes show ?thesis
    by (intro exI [of _ vsel] exI [of _ fsel] conjI)
qed


lemma docs_classify:
  "classify_fields
     [(''id'', plain_field), (''text'', docs_text_field), (''embedding'', docs_embedding_field)]
     [] []
   = ([(''embedding'', docs_embedding_field)], [(''text'', docs_text_field)])"
  by (simp add: plain_field_def docs_text_field_def docs_embedding_field_def)

lemma docs_setup:
  "setup_from_fields example_fde docs_schema
     = Inr (Some [(''embedding'', docs_config)], docs_indexed)"
  by (simp add: Let_def docs_schema_def setup_from_fields_def plain_field_def
      docs_text_field_def docs_embedding_field_def docs_sa_table_def docs_indexed_def
      docs_config_def append_constraint_def VectorIndex_def FullTextIndex_def
      get_index_type_def lower_VECTOR lower_FULLTEXT lower_COSINE vec_idx_name_def
      fts_idx_name_def example_fde_def first_expression_text_def first_column_name_def
      get_skip_index_def get_distance_metric_def get_algorithm_def get_fts_parser_def)

text \<open>
  On the example schema with an ordinary index on \<open>id\<close>, made without \<open>mysql_prefix\<close>:
  the first scan of the indexes raises, and nothing is appended.
\<close>

lemma setup_from_fields_plain_index:
  "setup_from_fields example_fde
     (docs_schema\<lparr>sch_table := docs_sa_table\<lparr>tbl_indexes :=
        [\<lparr> idx_name = ''ix_docs_id'', idx_expressions = [ColumnExpr ''id''],
           idx_columns = [''id''], mysql_prefix = None, mysql_using = None,
           mysql_with_parser = None \<rparr>]\<rparr>\<rparr>)
   = Inl (AttributeError
            (quoted ''NoneType'' @ '' object has no attribute '' @ quoted ''lower''))"
  by (simp add: Let_def docs_schema_def setup_from_fields_def plain_field_def
      docs_text_field_def docs_embedding_field_def docs_sa_table_def
      get_index_type_def get_skip_index_def)

text \<open>
  On the example schema: the table starts without indexes and gets the COSINE vector
  index on \<open>embedding\<close> and the full-text index on \<open>text\<close>; a second run changes nothing.
\<close>

theorem index_synchronization_witness:
  "setup_from_fields example_fde docs_schema
     = Inr (Some [(''embedding'', docs_config)], docs_indexed)
 \<and> tbl_indexes (sch_table docs_schema) = []
 \<and> map idx_name (tbl_indexes docs_indexed) = [''vec_idx_embedding_cosine'', ''fts_idx_text'']
 \<and> setup_from_fields example_fde (docs_schema\<lparr>sch_table := docs_indexed\<rparr>)
     = Inr (Some [(''embedding'', docs_config)], docs_indexed)
 \<and> (\<exists>E. indexed_expressions (tbl_indexes docs_indexed) = Inr E
        \<and> ''(VEC_COSINE_DISTANCE(embedding))'' \<in> set E)
 \<and> (\<exists>C. indexed_columns (tbl_indexes docs_indexed) = Inr C \<and> ''text'' \<in> set C)"
proof -
  have pf: "sch_pydantic_fields docs_schema =
      Some [(''id'', plain_field), (''text'', docs_text_field),
            (''embedding'', docs_embedding_field)]"
    by (simp add: docs_schema_def)
  from index_synchronization [OF pf docs_classify docs_setup]
  have again: "setup_from_fields example_fde (docs_schema\<lparr>sch_table := docs_indexed\<rparr>)
     = Inr (Some [(''embedding'', docs_config)], docs_indexed)"
    and covV: "\<not> get_skip_index docs_embedding_field \<longrightarrow>
       (\<exists>E. indexed_expressions (tbl_indexes docs_indexed) = Inr E
          \<and> field_expression example_fde (''embedding'', docs_embedding_field) \<in> set E)"
    and covF: "\<not> get_skip_index docs_text_field \<longrightarrow>
       (\<exists>C. indexed_columns (tbl_indexes docs_indexed) = Inr C \<and> ''text'' \<in> set C)"
    by auto
  have e: "field_expression example_fde (''embedding'', docs_embedding_field)
      = ''(VEC_COSINE_DISTANCE(embedding))''"
    by (simp add: field_expression_def example_fde_def get_distance_metric_def
        docs_embedding_field_def plain_field_def)
  have s1: "\<not> get_skip_index docs_embedding_field"
    by (simp add: get_skip_index_def docs_embedding_field_def plain_field_def)
  have s2: "\<not> get_skip_index docs_text_field"
    by (simp add: get_skip_index_def docs_text_field_def plain_field_def)
  have n: "map idx_name (tbl_indexes docs_indexed) = [''vec_idx_embedding_cosine'', ''fts_idx_text'']"
    by (simp add: docs_indexed_def VectorIndex_def FullTextIndex_def)
  have o: "tbl_indexes (sch_table docs_schema) = []"
    by (simp add: docs_schema_def docs_sa_table_def)
  from docs_setup o n again covV covF e s1 s2 show ?thesis by simp
qed

section \<open>Properties of construction\<close>

lemma indexed_expressions_no_TypeError:
  "indexed_expressions xs = Inl e \<Longrightarrow> \<not> is_TypeError e"
  by (induction xs)
    (auto simp: is_TypeError_def first_expression_text_def get_index_type_def
      split: if_splits sum.splits list.splits index_expr.splits option.splits)

lemma indexed_columns_no_TypeError:
  "indexed_columns xs = Inl e \<Longrightarrow> \<not> is_TypeError e"
  by (induction xs)
    (auto simp: is_TypeError_def first_column_name_def get_index_type_def
      split: if_splits sum.splits list.splits option.splits)

lemma auto_create_vector_index_no_TypeError:
  "auto_create_vector_index fde vfields t = Inl e \<Longrightarrow> \<not> is_TypeError e"
proof (induction vfields arbitrary: t)
  case Nil
  then show ?case by simp
next
  case (Cons nf vfields)
  obtain n f where nf: "nf = (n, f)" by (cases nf)
  show ?case
    using Cons.prems nf Cons.IH
    by (auto simp: Let_def split: if_splits sum.splits dest: indexed_expressions_no_TypeError)
qed

lemma auto_create_fulltext_index_no_TypeError:
  "auto_create_fulltext_index tfields t = Inl e \<Longrightarrow> \<not> is_TypeError e"
proof (induction tfields arbitrary: t)
  case Nil
  then show ?case by simp
next
  case (Cons nf tfields)
  obtain n f where nf: "nf = (n, f)" by (cases nf)
  show ?case
    using Cons.prems nf Cons.IH
    by (auto simp: Let_def split: if_splits sum.splits dest: indexed_columns_no_TypeError)
qed

lemma setup_from_fields_no_TypeError:
  "setup_from_fields fde schema = Inl e \<Longrightarrow> \<not> is_TypeError e"
  by (auto simp: setup_from_fields_def
      split: option.splits prod.splits sum.splits
      dest: auto_create_vector_index_no_TypeError auto_create_fulltext_index_no_TypeError)

lemma default_vector_column_no_TypeError:
  "default_vector_column cols vcs vc = Inl e \<Longrightarrow> \<not> is_TypeError e"
  by (auto simp: default_vector_column_def check_vector_column_def is_TypeError_def
      split: option.splits sum.splits if_splits)

lemma default_text_column_no_TypeError:
  "default_text_column cols tcs tc = Inl e \<Longrightarrow> \<not> is_TypeError e"
  by (auto simp: default_text_column_def check_text_column_def is_TypeError_def
      split: option.splits sum.splits if_splits)

text \<open>
  C2. A schema whose type is not one of the three metaclasses the constructor names
  makes construction fail with the \<open>TypeError\<close> \<open>Invalid schema type: <type>\<close>, and the
  trace of database interactions is the one the call started with: nothing has reached
  the database. A schema whose type is one of the three never makes construction raise
  a \<open>TypeError\<close> (it may still fail on an index, a column or in the engine).
\<close>

theorem Table_init_schema_type:
  "(\<not> recognized (sch_metaclass schema) \<longrightarrow>
      Table_init fde create_all schema vector_column text_column exist_ok db
        = (Inl (TypeError (''Invalid schema type: '' @ metaclass_str (sch_metaclass schema))),
           db))
 \<and> (recognized (sch_metaclass schema) \<longrightarrow>
      fst (Table_init fde create_all schema vector_column text_column exist_ok db)
        \<noteq> Inl (TypeError msg))"
proof (intro conjI impI)
  assume "\<not> recognized (sch_metaclass schema)"
  then show "Table_init fde create_all schema vector_column text_column exist_ok db
        = (Inl (TypeError (''Invalid schema type: '' @ metaclass_str (sch_metaclass schema))),
           db)"
    by (simp add: Table_init_def recognized_def)
next
  assume r: "recognized (sch_metaclass schema)"
  show "fst (Table_init fde create_all schema vector_column text_column exist_ok db)
        \<noteq> Inl (TypeError msg)"
  proof
    assume a: "fst (Table_init fde create_all schema vector_column text_column exist_ok db)
        = Inl (TypeError msg)"
    have t: "is_TypeError (TypeError msg)" by (simp add: is_TypeError_def)
    from r a show False
      using setup_from_fields_no_TypeError [of fde schema "TypeError msg"]
        default_vector_column_no_TypeError
          [of "tbl_columns (sch_table schema)"
              "filter_vector_columns (tbl_columns (sch_table schema))" vector_column
              "TypeError msg"]
        default_text_column_no_TypeError
          [of "tbl_columns (sch_table schema)"
              "filter_text_columns (tbl_columns (sch_table schema))" text_column
              "TypeError msg"] t
      by (auto simp: Table_init_def recognized_def Let_def
          split: sum.splits prod.splits option.splits)
  qed
qed


text \<open>
  A plain class (its type is \<open>type\<close>) is refused and the trace is untouched; the example
  schema, of type \<open>TableModelMeta\<close>, is built, with one \<open>create_all\<close>.
\<close>

theorem Table_init_schema_type_witness:
  "Table_init example_fde engine_ok (docs_schema\<lparr>sch_metaclass := OtherMeta ''builtins.type''\<rparr>)
     None None True [CreateAll ''other'' False]
     = (Inl (TypeError (''Invalid schema type: <class '' @ quoted ''builtins.type'' @ ''>'')),
        [CreateAll ''other'' False])
 \<and> fst (Table_init example_fde engine_ok docs_schema None None True [])
     \<noteq> Inl (TypeError (''Invalid schema type: <class ''
                        @ quoted ''pytidb.schema.TableModelMeta'' @ ''>''))
 \<and> Table_init example_fde engine_ok docs_schema None None True []
     = (Inr docs_table, [CreateAll ''docs'' True])"
  using
    Table_init_schema_type
      [where schema = "docs_schema\<lparr>sch_metaclass := OtherMeta ''builtins.type''\<rparr>"
         and fde = example_fde and create_all = engine_ok and vector_column = None
         and text_column = None and exist_ok = True and db = "[CreateAll ''other'' False]"]
    Table_init_schema_type
      [where schema = docs_schema
         and fde = example_fde and create_all = engine_ok and vector_column = None
         and text_column = None and exist_ok = True and db = "[]"
         and msg = "''Invalid schema type: <class '' @ quoted ''pytidb.schema.TableModelMeta''
                    @ ''>''"]
    Table_init_docs
  by (simp add: recognized_def docs_schema_def metaclass_str_def)

text \<open>
  The constructor leaves the configurations well formed: what the statements about
  \<open>insert\<close>, \<open>bulk_insert\<close> and \<open>update\<close> ask of the configurations holds of every table
  it builds.
\<close>

lemma setup_from_fields_wf_configs:
  "setup_from_fields fde schema = Inr (Some configs, t) \<Longrightarrow> wf_configs configs"
  by (auto simp: setup_from_fields_def split: option.splits prod.splits sum.splits
      intro: wf_configs_setup wf_configs_Nil)

lemma Table_init_wf_configs:
  assumes "Table_init fde create_all schema vector_column text_column exist_ok db = (Inr tbl, db')"
    and "t_auto_embedding_configs tbl = Some configs"
  shows "wf_configs configs"
proof -
  from assms obtain t where "setup_from_fields fde schema = Inr (Some configs, t)"
    by (auto simp: Table_init_def Let_def
        split: if_splits sum.splits prod.splits option.splits)
  then show ?thesis by (rule setup_from_fields_wf_configs)
qed


end
